theory Spec2Isabelle
  imports Complex_Main "HOL-Library.Monad_Syntax"
begin

section \<open>Values of the seeding script\<close>

text \<open>
  The script \<^verbatim>\<open>src/server/seed-database.ts\<close> receives its records from
  \<^verbatim>\<open>JSON.parse\<close> and only casts them to the interface \<^verbatim>\<open>Item\<close>, so a record is an
  arbitrary JSON value at run time. Numbers are IEEE doubles in the source; the model keeps
  them abstract (the type parameter \<open>'n\<close>) and takes the number-to-string conversion of
  template literals as a parameter \<open>ns\<close>. An object is the list of its properties; a
  property is looked up from the front of the list, and a parsed object lists each key
  once.
\<close>

datatype 'n json =
    JNull
  | JBool bool
  | JNum 'n
  | JStr string
  | JArr "'n json list"
  | JObj "(string \<times> 'n json) list"

datatype error =
    Error string
  | TypeError string
  | SyntaxError string
  | ServiceError string

text \<open>Sequencing of calls that may throw: the first exception ends the computation.\<close>

fun bind_e :: "error + 'a \<Rightarrow> ('a \<Rightarrow> error + 'b) \<Rightarrow> error + 'b" where
  "bind_e (Inl e) f = Inl e"
| "bind_e (Inr x) f = f x"

fun map_e :: "('a \<Rightarrow> error + 'b) \<Rightarrow> 'a list \<Rightarrow> error + 'b list" where
  "map_e f [] = Inr []"
| "map_e f (x # xs) = bind_e (f x) (\<lambda>y. bind_e (map_e f xs) (\<lambda>ys. Inr (y # ys)))"

subsection \<open>The interface \<^verbatim>\<open>Item\<close>\<close>

record address =
  street :: string
  city :: string
  state :: string
  postal_code :: string
  country :: string

record 'n price_info =
  full_price :: 'n
  sale_price :: 'n

record 'n review =
  review_date :: string
  rating :: 'n
  comment :: string

record 'n item =
  item_id :: string
  item_name :: string
  item_description :: string
  brand :: string
  manufacturer_address :: address
  prices :: "'n price_info"
  categories :: "string list"
  user_reviews :: "'n review list"
  "notes" :: string

text \<open>
  A JSON value conforms to the interface when every field is present with the declared
  type (further fields are allowed, as in TypeScript). \<open>as_item\<close> reads the typed record
  off a conforming value and is \<open>None\<close> on any other value.
\<close>

fun field :: "'n json \<Rightarrow> string \<Rightarrow> 'n json option" where
  "field (JObj kvs) k = map_of kvs k"
| "field _ k = None"

fun as_str :: "'n json option \<Rightarrow> string option" where
  "as_str (Some (JStr s)) = Some s"
| "as_str _ = None"

fun as_num :: "'n json option \<Rightarrow> 'n option" where
  "as_num (Some (JNum n)) = Some n"
| "as_num _ = None"

fun as_arr :: "'n json option \<Rightarrow> 'n json list option" where
  "as_arr (Some (JArr xs)) = Some xs"
| "as_arr _ = None"

fun as_obj :: "'n json option \<Rightarrow> 'n json option" where
  "as_obj (Some (JObj kvs)) = Some (JObj kvs)"
| "as_obj _ = None"

definition as_address :: "'n json \<Rightarrow> address option" where
  "as_address a =
     do {
       st \<leftarrow> as_str (field a ''street'');
       ci \<leftarrow> as_str (field a ''city'');
       sa \<leftarrow> as_str (field a ''state'');
       pc \<leftarrow> as_str (field a ''postal_code'');
       co \<leftarrow> as_str (field a ''country'');
       Some \<lparr>street = st, city = ci, state = sa, postal_code = pc, country = co\<rparr>
     }"

definition as_prices :: "'n json \<Rightarrow> 'n price_info option" where
  "as_prices p =
     do {
       fp \<leftarrow> as_num (field p ''full_price'');
       sp \<leftarrow> as_num (field p ''sale_price'');
       Some \<lparr>full_price = fp, sale_price = sp\<rparr>
     }"

definition as_review :: "'n json \<Rightarrow> 'n review option" where
  "as_review r =
     do {
       d \<leftarrow> as_str (field r ''review_date'');
       g \<leftarrow> as_num (field r ''rating'');
       c \<leftarrow> as_str (field r ''comment'');
       Some \<lparr>review_date = d, rating = g, comment = c\<rparr>
     }"

definition as_item :: "'n json \<Rightarrow> 'n item option" where
  "as_item j =
     do {
       iid \<leftarrow> as_str (field j ''item_id'');
       nm \<leftarrow> as_str (field j ''item_name'');
       ds \<leftarrow> as_str (field j ''item_description'');
       br \<leftarrow> as_str (field j ''brand'');
       ao \<leftarrow> as_obj (field j ''manufacturer_address'');
       ad \<leftarrow> as_address ao;
       po \<leftarrow> as_obj (field j ''prices'');
       pr \<leftarrow> as_prices po;
       cs \<leftarrow> as_arr (field j ''categories'');
       cats \<leftarrow> those (map (\<lambda>c. as_str (Some c)) cs);
       rs \<leftarrow> as_arr (field j ''user_reviews'');
       revs \<leftarrow> those (map as_review rs);
       nt \<leftarrow> as_str (field j ''notes'');
       Some \<lparr>item_id = iid, item_name = nm, item_description = ds, brand = br,
             manufacturer_address = ad, prices = pr, categories = cats,
             user_reviews = revs, notes = nt\<rparr>
     }"

definition valid_item :: "'n json \<Rightarrow> bool" where
  "valid_item j = (as_item j \<noteq> None)"

section \<open>JavaScript operations used by \<^verbatim>\<open>createItemSummary\<close>\<close>

text \<open>
  A property read yields a value or \<^verbatim>\<open>undefined\<close> (\<open>None\<close>); reading a property of
  \<^verbatim>\<open>undefined\<close> or \<^verbatim>\<open>null\<close> throws a \<^verbatim>\<open>TypeError\<close>. None of the property names the
  script reads is defined on the prototypes of arrays, strings, numbers or booleans, so
  the read yields \<^verbatim>\<open>undefined\<close> on those.
\<close>

fun get_prop :: "'n json option \<Rightarrow> string \<Rightarrow> error + 'n json option" where
  "get_prop None k = Inl (TypeError k)"
| "get_prop (Some JNull) k = Inl (TypeError k)"
| "get_prop (Some (JObj kvs)) k = Inr (map_of kvs k)"
| "get_prop (Some _) k = Inr None"

text \<open>\<^verbatim>\<open>Array.prototype.join\<close> on strings.\<close>

fun join :: "string \<Rightarrow> string list \<Rightarrow> string" where
  "join sep [] = []"
| "join sep [x] = x"
| "join sep (x # y # ys) = x @ sep @ join sep (y # ys)"

text \<open>
  String conversion of a value, as a template literal and \<^verbatim>\<open>Array.prototype.join\<close>
  perform it. An array is converted by joining its elements with a comma. In a join, a
  \<^verbatim>\<open>null\<close> element gives the empty string and every other element is converted in
  turn, from the left. An object gives \<^verbatim>\<open>[object Object]\<close> through the method it
  inherits, unless it has a property of its own named \<^verbatim>\<open>toString\<close>: a parsed value is
  never callable, so the conversion then finds no method that yields a primitive and
  throws a \<^verbatim>\<open>TypeError\<close>.
\<close>

fun to_string :: "('n \<Rightarrow> string) \<Rightarrow> 'n json \<Rightarrow> error + string"
  and join_elems :: "('n \<Rightarrow> string) \<Rightarrow> string \<Rightarrow> 'n json list \<Rightarrow> error + string" where
  "to_string ns JNull = Inr ''null''"
| "to_string ns (JBool b) = Inr (if b then ''true'' else ''false'')"
| "to_string ns (JNum n) = Inr (ns n)"
| "to_string ns (JStr s) = Inr s"
| "to_string ns (JArr xs) = join_elems ns '','' xs"
| "to_string ns (JObj kvs) =
     (if map_of kvs ''toString'' = None then Inr ''[object Object]''
      else Inl (TypeError ''toString''))"
| "join_elems ns sep [] = Inr []"
| "join_elems ns sep [x] = (if x = JNull then Inr [] else to_string ns x)"
| "join_elems ns sep (x # y # ys) =
     bind_e (if x = JNull then Inr [] else to_string ns x) (\<lambda>s.
     bind_e (join_elems ns sep (y # ys)) (\<lambda>r. Inr (s @ sep @ r)))"

fun tmpl :: "('n \<Rightarrow> string) \<Rightarrow> 'n json option \<Rightarrow> error + string" where
  "tmpl ns None = Inr ''undefined''"
| "tmpl ns (Some v) = to_string ns v"

text \<open>
  \<^verbatim>\<open>v.join(sep)\<close> and \<^verbatim>\<open>v.map(f)\<close>: both throw a \<^verbatim>\<open>TypeError\<close> unless \<open>v\<close> is an
  array (the method is missing on every other JSON value).
\<close>

fun call_join :: "('n \<Rightarrow> string) \<Rightarrow> 'n json option \<Rightarrow> string \<Rightarrow> error + string" where
  "call_join ns (Some (JArr xs)) sep = join_elems ns sep xs"
| "call_join ns _ sep = Inl (TypeError ''join'')"

fun call_map :: "'n json option \<Rightarrow> ('n json \<Rightarrow> error + 'b) \<Rightarrow> error + 'b list" where
  "call_map (Some (JArr xs)) f = map_e f xs"
| "call_map _ f = Inl (TypeError ''map'')"

section \<open>\<^verbatim>\<open>createItemSummary\<close>\<close>

text \<open>
  Each substitution of a template literal is evaluated and converted to a string before
  the next one is evaluated.
\<close>

definition review_text :: "('n \<Rightarrow> string) \<Rightarrow> 'n json \<Rightarrow> error + string" where
  "review_text ns review =
     bind_e (get_prop (Some review) ''rating'') (\<lambda>rating.
     bind_e (tmpl ns rating) (\<lambda>rating_text.
     bind_e (get_prop (Some review) ''review_date'') (\<lambda>review_date.
     bind_e (tmpl ns review_date) (\<lambda>review_date_text.
     bind_e (get_prop (Some review) ''comment'') (\<lambda>comment.
     bind_e (tmpl ns comment) (\<lambda>comment_text.
       Inr (''Rated '' @ rating_text @ '' on '' @ review_date_text @ '': ''
            @ comment_text)))))))"

definition createItemSummary :: "('n \<Rightarrow> string) \<Rightarrow> 'n json \<Rightarrow> error + string" where
  "createItemSummary ns item =
     bind_e (get_prop (Some item) ''manufacturer_address'') (\<lambda>manufacturer_address.
     bind_e (get_prop manufacturer_address ''country'') (\<lambda>country.
     bind_e (tmpl ns country) (\<lambda>country_text.
     let manufacturerDetails = ''Made in '' @ country_text in
     bind_e (get_prop (Some item) ''categories'') (\<lambda>item_categories.
     bind_e (call_join ns item_categories '', '') (\<lambda>categories.
     bind_e (get_prop (Some item) ''user_reviews'') (\<lambda>user_reviews.
     bind_e (call_map user_reviews (review_text ns)) (\<lambda>rendered.
     let userReviews = join '' '' rendered in
     bind_e (get_prop (Some item) ''item_name'') (\<lambda>item_name.
     bind_e (tmpl ns item_name) (\<lambda>item_name_text.
     bind_e (get_prop (Some item) ''item_description'') (\<lambda>item_description.
     bind_e (tmpl ns item_description) (\<lambda>item_description_text.
     bind_e (get_prop (Some item) ''brand'') (\<lambda>brand.
     bind_e (tmpl ns brand) (\<lambda>brand_text.
     let basicInfo = item_name_text @ '' '' @ item_description_text
                     @ '' from the brand '' @ brand_text in
     bind_e (get_prop (Some item) ''prices'') (\<lambda>prices.
     bind_e (get_prop prices ''full_price'') (\<lambda>full_price.
     bind_e (tmpl ns full_price) (\<lambda>full_price_text.
     bind_e (get_prop (Some item) ''prices'') (\<lambda>prices'.
     bind_e (get_prop prices' ''sale_price'') (\<lambda>sale_price.
     bind_e (tmpl ns sale_price) (\<lambda>sale_price_text.
     let price = ''At full price it costs: '' @ full_price_text
                 @ '' USD, On sale it costs: '' @ sale_price_text @ '' USD'' in
     bind_e (get_prop (Some item) ''notes'') (\<lambda>notes.
     bind_e (tmpl ns notes) (\<lambda>notes_text.
       Inr (basicInfo @ ''. Manufacturer: '' @ manufacturerDetails
            @ ''. Categories: '' @ categories
            @ ''. Reviews: '' @ userReviews
            @ ''. Price: '' @ price
            @ ''. Notes: '' @ notes_text))))))))))))))))))))))"

text \<open>
  The summary as the specification words it (section 4.2), on the typed record: name,
  description and brand; manufacturer country; comma-joined categories; the reviews, each
  rendered as "Rated r on d: c", joined by spaces; the price sentence; the notes.
\<close>

definition review_segment :: "('n \<Rightarrow> string) \<Rightarrow> 'n review list \<Rightarrow> string" where
  "review_segment ns rs =
     join '' '' (map (\<lambda>r. ''Rated '' @ ns (rating r) @ '' on '' @ review_date r @ '': ''
                           @ comment r) rs)"

definition summarize :: "('n \<Rightarrow> string) \<Rightarrow> 'n item \<Rightarrow> string" where
  "summarize ns it =
     item_name it @ '' '' @ item_description it @ '' from the brand '' @ brand it
     @ ''. Manufacturer: Made in '' @ country (manufacturer_address it)
     @ ''. Categories: '' @ join '', '' (categories it)
     @ ''. Reviews: '' @ review_segment ns (user_reviews it)
     @ ''. Price: At full price it costs: '' @ ns (full_price (prices it))
     @ '' USD, On sale it costs: '' @ ns (sale_price (prices it)) @ '' USD''
     @ ''. Notes: '' @ notes it"

section \<open>The collaborators of the script\<close>

text \<open>
  The generative model, the embedding provider and the document store are outside the
  repository. Their answers are the environment of a run: whether a store operation
  fails, what the model answers to the one prompt of the script (a text, or a failure of
  the call), what \<^verbatim>\<open>JSON.parse\<close> makes of a text, which vector the provider returns for
  a text, and whether the embedding call or the bulk insert of batch number \<open>k\<close>
  (counted from 0) fails. A bulk insert that fails may already have persisted the first
  \<open>n\<close> documents of the batch (the store does not write a batch atomically, section 4.3
  of the specification). \<^verbatim>\<open>JSON.parse\<close> is only applied to a text that begins with an
  opening bracket, and what it returns for such a text is an array, so its result is
  taken to be a list of values.
\<close>

datatype op =
    Connect
  | Ping
  | ListCollections
  | CreateCollection
  | DropIndexes
  | CreateSearchIndex
  | DeleteMany

record ('n, 'v) env =
  fault :: "op \<Rightarrow> error option"
  llm_invoke :: "error + string"
  JSON_parse :: "string \<Rightarrow> error + 'n json list"
  num_str :: "'n \<Rightarrow> string"
  embed_fault :: "nat \<Rightarrow> error option"
  embed_vector :: "string \<Rightarrow> 'v"
  insert_fault :: "nat \<Rightarrow> (error \<times> nat) option"

record vector_field =
  field_type :: string
  path :: string
  numDimensions :: nat
  similarity :: string

record search_index =
  index_name :: string
  index_type :: string
  definition_fields :: "vector_field list"

record ('n, 'v) document =
  embedding_text :: string
  embedding :: 'v
  metadata :: "'n json"

datatype ('n, 'v) call =
    CConnect
  | CPing
  | CListCollections
  | CCreateCollection string
  | CDropIndexes
  | CCreateSearchIndex search_index
  | CDeleteMany
  | CInvoke
  | CEmbed "string list"
  | CInsertMany "('n, 'v) document list"
  | CClose

text \<open>
  The state of a run: the connection, the collections of \<^verbatim>\<open>inventory_database\<close>, the
  indexes and the documents of the collection \<^verbatim>\<open>items\<close>, the calls made to the
  collaborators so far, and what \<^verbatim>\<open>console.error\<close> has printed (\<^verbatim>\<open>console.log\<close> lines,
  the pause between batches and the garbage-collection hint are left out).
\<close>

record ('n, 'v) world =
  connected :: bool
  collections :: "string list"
  indexes :: "search_index list"
  docs :: "('n, 'v) document list"
  calls :: "('n, 'v) call list"
  console_errors :: "(string \<times> error) list"

definition called :: "('n, 'v) call \<Rightarrow> ('n, 'v) world \<Rightarrow> ('n, 'v) world" where
  "called c w = w\<lparr>calls := calls w @ [c]\<rparr>"

definition console_error :: "string \<Rightarrow> error \<Rightarrow> ('n, 'v) world \<Rightarrow> ('n, 'v) world" where
  "console_error msg e w = w\<lparr>console_errors := console_errors w @ [(msg, e)]\<rparr>"

text \<open>Sequencing of awaited calls on the state: a rejection skips the rest.\<close>

definition bind_s ::
  "('s \<Rightarrow> (error + 'a) \<times> 's) \<Rightarrow> ('a \<Rightarrow> 's \<Rightarrow> (error + 'b) \<times> 's) \<Rightarrow> 's \<Rightarrow> (error + 'b) \<times> 's" where
  "bind_s m f w = (case m w of (Inl e, w') \<Rightarrow> (Inl e, w') | (Inr x, w') \<Rightarrow> f x w')"

subsection \<open>Store operations\<close>

text \<open>
  Modelled from the spec: the operations of the document store, which belong to the
  database driver and are not among the sources of the repository. Section 6 of the
  specification lists them (existence check and creation of a collection, dropping and
  creation of indexes from a declarative descriptor, bulk delete, bulk insert), and
  section 4.4 says that dropping the indexes removes every index of the collection. Each
  operation records its call. It fails when the environment says so, and then leaves the
  store as it was; creating a collection that exists fails as well.
\<close>

definition connect :: "('n, 'v) env \<Rightarrow> ('n, 'v) world \<Rightarrow> (error + unit) \<times> ('n, 'v) world" where
  "connect env w =
     (let w1 = called CConnect w in
      case fault env Connect of
        Some e \<Rightarrow> (Inl e, w1)
      | None \<Rightarrow> (Inr (), w1\<lparr>connected := True\<rparr>))"

definition ping :: "('n, 'v) env \<Rightarrow> ('n, 'v) world \<Rightarrow> (error + unit) \<times> ('n, 'v) world" where
  "ping env w =
     (let w1 = called CPing w in
      case fault env Ping of
        Some e \<Rightarrow> (Inl e, w1)
      | None \<Rightarrow> (Inr (), w1))"

definition listCollections ::
  "('n, 'v) env \<Rightarrow> string \<Rightarrow> ('n, 'v) world \<Rightarrow> (error + string list) \<times> ('n, 'v) world" where
  "listCollections env name w =
     (let w1 = called CListCollections w in
      case fault env ListCollections of
        Some e \<Rightarrow> (Inl e, w1)
      | None \<Rightarrow> (Inr (filter (\<lambda>c. c = name) (collections w1)), w1))"

definition createCollection ::
  "('n, 'v) env \<Rightarrow> string \<Rightarrow> ('n, 'v) world \<Rightarrow> (error + unit) \<times> ('n, 'v) world" where
  "createCollection env name w =
     (let w1 = called (CCreateCollection name) w in
      case fault env CreateCollection of
        Some e \<Rightarrow> (Inl e, w1)
      | None \<Rightarrow>
          if name \<in> set (collections w1) then (Inl (ServiceError ''NamespaceExists''), w1)
          else (Inr (), w1\<lparr>collections := collections w1 @ [name]\<rparr>))"

definition dropIndexes :: "('n, 'v) env \<Rightarrow> ('n, 'v) world \<Rightarrow> (error + unit) \<times> ('n, 'v) world" where
  "dropIndexes env w =
     (let w1 = called CDropIndexes w in
      case fault env DropIndexes of
        Some e \<Rightarrow> (Inl e, w1)
      | None \<Rightarrow> (Inr (), w1\<lparr>indexes := []\<rparr>))"

definition createSearchIndex ::
  "('n, 'v) env \<Rightarrow> search_index \<Rightarrow> ('n, 'v) world \<Rightarrow> (error + unit) \<times> ('n, 'v) world" where
  "createSearchIndex env idx w =
     (let w1 = called (CCreateSearchIndex idx) w in
      case fault env CreateSearchIndex of
        Some e \<Rightarrow> (Inl e, w1)
      | None \<Rightarrow> (Inr (), w1\<lparr>indexes := indexes w1 @ [idx]\<rparr>))"

definition deleteMany :: "('n, 'v) env \<Rightarrow> ('n, 'v) world \<Rightarrow> (error + unit) \<times> ('n, 'v) world" where
  "deleteMany env w =
     (let w1 = called CDeleteMany w in
      case fault env DeleteMany of
        Some e \<Rightarrow> (Inl e, w1)
      | None \<Rightarrow> (Inr (), w1\<lparr>docs := []\<rparr>))"

definition close :: "('n, 'v) world \<Rightarrow> ('n, 'v) world" where
  "close w = (called CClose w)\<lparr>connected := False\<rparr>"

text \<open>
  Modelled from the spec: the library call \<^verbatim>\<open>MongoDBAtlasVectorSearch.fromDocuments\<close>,
  here for batch number \<open>k\<close> (section 4.3, steps 2 and 3, and section 6): the page
  contents are embedded in one call, the vectors correspond to the texts by position,
  each vector is paired with its document, and the batch is written with one bulk insert.
  A bulk insert that fails has persisted the first \<open>n\<close> documents of the batch, where
  \<open>n\<close> is given by the environment.
\<close>

definition fromDocuments ::
  "('n, 'v) env \<Rightarrow> nat \<Rightarrow> (string \<times> 'n json) list \<Rightarrow> ('n, 'v) world
   \<Rightarrow> (error + unit) \<times> ('n, 'v) world" where
  "fromDocuments env k documents w =
     (let texts = map fst documents;
          w1 = called (CEmbed texts) w in
      case embed_fault env k of
        Some e \<Rightarrow> (Inl e, w1)
      | None \<Rightarrow>
          (let ds = map (\<lambda>(pageContent, record).
                      \<lparr>embedding_text = pageContent,
                       embedding = embed_vector env pageContent,
                       metadata = record\<rparr>) documents;
               w2 = called (CInsertMany ds) w1 in
           case insert_fault env k of
             Some (e, n) \<Rightarrow> (Inl e, w2\<lparr>docs := docs w2 @ take n ds\<rparr>)
           | None \<Rightarrow> (Inr (), w2\<lparr>docs := docs w2 @ ds\<rparr>)))"

section \<open>Provisioning\<close>

definition setupDatabaseAndCollection ::
  "('n, 'v) env \<Rightarrow> ('n, 'v) world \<Rightarrow> (error + unit) \<times> ('n, 'v) world" where
  "setupDatabaseAndCollection env =
     bind_s (listCollections env ''items'') (\<lambda>collections.
       if length collections = 0 then createCollection env ''items''
       else (\<lambda>w. (Inr (), w)))"

definition vectorSearchIdx :: search_index where
  "vectorSearchIdx =
     \<lparr>index_name = ''vector_index'',
      index_type = ''vectorSearch'',
      definition_fields =
        [\<lparr>field_type = ''vector'', path = ''embedding'', numDimensions = 768,
          similarity = ''cosine''\<rparr>]\<rparr>"

text \<open>
  \<open>createVectorSearchIndex\<close> never throws: a failure of either store operation is caught
  and reported on the console, and the function returns.
\<close>

definition createVectorSearchIndex ::
  "('n, 'v) env \<Rightarrow> ('n, 'v) world \<Rightarrow> (error + unit) \<times> ('n, 'v) world" where
  "createVectorSearchIndex env w =
     (case bind_s (dropIndexes env) (\<lambda>_. createSearchIndex env vectorSearchIdx) w of
        (Inr _, w') \<Rightarrow> (Inr (), w')
      | (Inl e, w') \<Rightarrow>
          (Inr (), console_error ''Failed to create vector search index:'' e w'))"

section \<open>Record generation\<close>

text \<open>
  The match of the response against the regular expression of line 145 (an opening
  bracket, then any characters, line breaks included, then a closing bracket): the match
  starts at the first opening bracket and, the star being greedy, ends at the last closing
  bracket behind it; there is no match when no closing bracket follows the first opening
  one.
\<close>

definition match_array :: "string \<Rightarrow> string option" where
  "match_array s =
     (case dropWhile (\<lambda>c. c \<noteq> CHR ''['') s of
        [] \<Rightarrow> None
      | b # rest \<Rightarrow>
          (let body = rev (dropWhile (\<lambda>c. c \<noteq> CHR '']'') (rev rest)) in
           if body = [] then None else Some (b # body)))"

definition generateFallbackData :: "('n::numeral) json list" where
  "generateFallbackData =
     [JObj [(''item_id'', JStr ''item_001''),
            (''item_name'', JStr ''Modern Leather Sofa''),
            (''item_description'',
               JStr ''A comfortable 3-seater leather sofa perfect for modern living rooms''),
            (''brand'', JStr ''ComfortPlus''),
            (''manufacturer_address'',
               JObj [(''street'', JStr ''123 Factory Street''),
                     (''city'', JStr ''Detroit''),
                     (''state'', JStr ''Michigan''),
                     (''postal_code'', JStr ''48201''),
                     (''country'', JStr ''USA'')]),
            (''prices'', JObj [(''full_price'', JNum 1299), (''sale_price'', JNum 999)]),
            (''categories'', JArr [JStr ''sofa'', JStr ''living room'', JStr ''leather'']),
            (''user_reviews'',
               JArr [JObj [(''review_date'', JStr ''2024-01-15''),
                           (''rating'', JNum 5),
                           (''comment'', JStr ''Excellent quality and very comfortable'')]]),
            (''notes'', JStr ''Available in black, brown, and white colors'')],
      JObj [(''item_id'', JStr ''item_002''),
            (''item_name'', JStr ''Oak Dining Table''),
            (''item_description'',
               JStr ''Solid oak dining table that seats 6 people comfortably''),
            (''brand'', JStr ''WoodCraft''),
            (''manufacturer_address'',
               JObj [(''street'', JStr ''456 Lumber Ave''),
                     (''city'', JStr ''Portland''),
                     (''state'', JStr ''Oregon''),
                     (''postal_code'', JStr ''97201''),
                     (''country'', JStr ''USA'')]),
            (''prices'', JObj [(''full_price'', JNum 899), (''sale_price'', JNum 699)]),
            (''categories'', JArr [JStr ''dining table'', JStr ''dining room'', JStr ''wood'']),
            (''user_reviews'',
               JArr [JObj [(''review_date'', JStr ''2024-02-10''),
                           (''rating'', JNum 4),
                           (''comment'', JStr ''Beautiful table, well made'')]]),
            (''notes'', JStr ''Comes with matching chairs available separately'')]]"

text \<open>The body of the \<^verbatim>\<open>try\<close> block of \<^verbatim>\<open>generateSyntheticData\<close>.\<close>

definition parse_response :: "('n, 'v) env \<Rightarrow> string \<Rightarrow> error + 'n json list" where
  "parse_response env jsonContent =
     (case match_array jsonContent of
        None \<Rightarrow> Inl (Error ''No valid JSON array found in response'')
      | Some jsonMatch \<Rightarrow> JSON_parse env jsonMatch)"

text \<open>
  The model is invoked before the \<^verbatim>\<open>try\<close> block is entered, so a rejected call
  leaves \<^verbatim>\<open>generateSyntheticData\<close> as a rejection; the \<^verbatim>\<open>catch\<close> clause covers the
  extraction and the parse only.
\<close>

definition generateSyntheticData ::
  "('n::numeral, 'v) env \<Rightarrow> ('n, 'v) world \<Rightarrow> (error + 'n json list) \<times> ('n, 'v) world" where
  "generateSyntheticData env w =
     (let w1 = called CInvoke w in
      case llm_invoke env of
        Inl e \<Rightarrow> (Inl e, w1)
      | Inr content \<Rightarrow>
          (case parse_response env content of
             Inr items \<Rightarrow> (Inr items, w1)
           | Inl err \<Rightarrow>
               (Inr generateFallbackData, console_error ''Error parsing AI response:'' err w1)))"

section \<open>The load loop and the run\<close>

definition batchSize :: nat where
  "batchSize = 3"

text \<open>\<^verbatim>\<open>xs.slice(a, b)\<close> for \<open>0 \<le> a \<le> b\<close>.\<close>

definition slice :: "'a list \<Rightarrow> nat \<Rightarrow> nat \<Rightarrow> 'a list" where
  "slice xs a b = take (b - a) (drop a xs)"

text \<open>
  One pass of the loop body for the batch with number \<open>k\<close>: the summaries of the batch
  are awaited together (the first rejection rejects them all), then the batch is embedded
  and stored.
\<close>

definition process_batch ::
  "('n, 'v) env \<Rightarrow> nat \<Rightarrow> 'n json list \<Rightarrow> ('n, 'v) world \<Rightarrow> (error + unit) \<times> ('n, 'v) world" where
  "process_batch env k batch w =
     (case map_e (\<lambda>record. bind_e (createItemSummary (num_str env) record)
                              (\<lambda>pageContent. Inr (pageContent, record))) batch of
        Inl e \<Rightarrow> (Inl e, w)
      | Inr recordsWithSummaries \<Rightarrow> fromDocuments env k recordsWithSummaries w)"

function load_loop ::
  "('n, 'v) env \<Rightarrow> 'n json list \<Rightarrow> nat \<Rightarrow> ('n, 'v) world \<Rightarrow> (error + unit) \<times> ('n, 'v) world" where
  "load_loop env syntheticData i w =
     (if i < length syntheticData then
        (let batch = slice syntheticData i (i + batchSize) in
         case process_batch env (i div batchSize) batch w of
           (Inl e, w') \<Rightarrow> (Inl e, w')
         | (Inr _, w') \<Rightarrow> load_loop env syntheticData (i + batchSize) w')
      else (Inr (), w))"
  by pat_completeness auto
termination
  by (relation "measure (\<lambda>(env, syntheticData, i, w). length syntheticData - i)")
     (auto simp: batchSize_def)

text \<open>The \<^verbatim>\<open>try\<close> block of \<^verbatim>\<open>seedDatabase\<close>.\<close>

definition seed_steps ::
  "('n::numeral, 'v) env \<Rightarrow> ('n, 'v) world \<Rightarrow> (error + unit) \<times> ('n, 'v) world" where
  "seed_steps env =
     bind_s (connect env) (\<lambda>_.
     bind_s (ping env) (\<lambda>_.
     bind_s (setupDatabaseAndCollection env) (\<lambda>_.
     bind_s (createVectorSearchIndex env) (\<lambda>_.
     bind_s (deleteMany env) (\<lambda>_.
     bind_s (generateSyntheticData env) (\<lambda>syntheticData.
       load_loop env syntheticData 0))))))"

text \<open>
  \<^verbatim>\<open>seedDatabase\<close>: an error of the \<^verbatim>\<open>try\<close> block is reported on the console, and
  the connection is closed in the \<^verbatim>\<open>finally\<close> clause.
\<close>

definition seedDatabase :: "('n::numeral, 'v) env \<Rightarrow> ('n, 'v) world \<Rightarrow> ('n, 'v) world" where
  "seedDatabase env w =
     (case seed_steps env w of
        (Inr _, w') \<Rightarrow> close w'
      | (Inl error, w') \<Rightarrow> close (console_error ''Error seeding database:'' error w'))"

section \<open>Notions used in the statements\<close>

text \<open>The batches handed to the bulk insert and the texts handed to the embedding call.\<close>

fun insert_calls :: "('n, 'v) call list \<Rightarrow> ('n, 'v) document list list" where
  "insert_calls [] = []"
| "insert_calls (CInsertMany ds # cs) = ds # insert_calls cs"
| "insert_calls (_ # cs) = insert_calls cs"

fun embed_calls :: "('n, 'v) call list \<Rightarrow> string list list" where
  "embed_calls [] = []"
| "embed_calls (CEmbed ts # cs) = ts # embed_calls cs"
| "embed_calls (_ # cs) = embed_calls cs"

text \<open>A fully populated record: it conforms to the interface and no text or list is empty.\<close>

definition fully_populated :: "'n json \<Rightarrow> bool" where
  "fully_populated j =
     (case as_item j of
        None \<Rightarrow> False
      | Some it \<Rightarrow>
          item_id it \<noteq> [] \<and> item_name it \<noteq> [] \<and> item_description it \<noteq> []
          \<and> brand it \<noteq> [] \<and> street (manufacturer_address it) \<noteq> []
          \<and> city (manufacturer_address it) \<noteq> [] \<and> state (manufacturer_address it) \<noteq> []
          \<and> postal_code (manufacturer_address it) \<noteq> []
          \<and> country (manufacturer_address it) \<noteq> []
          \<and> categories it \<noteq> [] \<and> [] \<notin> set (categories it)
          \<and> user_reviews it \<noteq> []
          \<and> list_all (\<lambda>r. review_date r \<noteq> [] \<and> comment r \<noteq> []) (user_reviews it)
          \<and> notes it \<noteq> [])"

text \<open>
  The summary of a record whose summary does not throw, and the document stored for it.
\<close>

definition summary_of :: "('n, 'v) env \<Rightarrow> 'n json \<Rightarrow> string" where
  "summary_of env r = (case createItemSummary (num_str env) r of Inr s \<Rightarrow> s | Inl e \<Rightarrow> [])"

definition stored :: "('n, 'v) env \<Rightarrow> 'n json \<Rightarrow> ('n, 'v) document" where
  "stored env r =
     \<lparr>embedding_text = summary_of env r,
      embedding = embed_vector env (summary_of env r),
      metadata = r\<rparr>"

text \<open>
  The loop seen as a walk over the list of its batches: \<open>chunks n xs\<close> cuts \<open>xs\<close> into
  pieces of length \<open>n\<close> (the last one may be shorter), and \<open>run_batches\<close> processes a
  list of batches in order, numbering them from \<open>k\<close>, until one fails.
\<close>

function chunks :: "nat \<Rightarrow> 'a list \<Rightarrow> 'a list list" where
  "chunks n xs = (if n = 0 \<or> xs = [] then [] else take n xs # chunks n (drop n xs))"
  by pat_completeness auto
termination
  by (relation "measure (\<lambda>(n, xs). length xs)") auto

fun run_batches ::
  "('n, 'v) env \<Rightarrow> nat \<Rightarrow> 'n json list list \<Rightarrow> ('n, 'v) world \<Rightarrow> (error + unit) \<times> ('n, 'v) world" where
  "run_batches env k [] w = (Inr (), w)"
| "run_batches env k (b # bs) w =
     (case process_batch env k b w of
        (Inl e, w') \<Rightarrow> (Inl e, w')
      | (Inr _, w') \<Rightarrow> run_batches env (Suc k) bs w')"

text \<open>The calls one successful pass of the loop body makes for a batch.\<close>

definition batch_calls :: "('n, 'v) env \<Rightarrow> 'n json list \<Rightarrow> ('n, 'v) call list" where
  "batch_calls env b = [CEmbed (map (summary_of env) b), CInsertMany (map (stored env) b)]"

text \<open>The steps of the \<^verbatim>\<open>try\<close> block that come before the generation of the records.\<close>

definition provision_steps ::
  "('n, 'v) env \<Rightarrow> ('n, 'v) world \<Rightarrow> (error + unit) \<times> ('n, 'v) world" where
  "provision_steps env =
     bind_s (connect env) (\<lambda>_.
     bind_s (ping env) (\<lambda>_.
     bind_s (setupDatabaseAndCollection env) (\<lambda>_.
     bind_s (createVectorSearchIndex env) (\<lambda>_.
       deleteMany env))))"

section \<open>Sample runs\<close>

text \<open>
  Concrete environments for the examples: numbers are integers printed in decimal (as
  JavaScript prints integral doubles below \<open>2^53\<close>), a vector is a list of naturals, and
  \<open>parse_only text value\<close> stands for \<^verbatim>\<open>JSON.parse\<close> on the one \<open>text\<close> whose value is
  given; it rejects every other text, which is what \<^verbatim>\<open>JSON.parse\<close> does on the other
  texts the examples hand to it.
\<close>

definition digit_char :: "nat \<Rightarrow> char" where
  "digit_char d = ''0123456789'' ! d"

function show_nat :: "nat \<Rightarrow> string" where
  "show_nat n = (if n < 10 then [digit_char n] else show_nat (n div 10) @ [digit_char (n mod 10)])"
  by pat_completeness auto
termination
  by (relation "measure (\<lambda>n. n)") auto

definition show_int :: "int \<Rightarrow> string" where
  "show_int i = (if i < 0 then CHR ''-'' # show_nat (nat (- i)) else show_nat (nat i))"

definition parse_only :: "string \<Rightarrow> 'n json list \<Rightarrow> string \<Rightarrow> error + 'n json list" where
  "parse_only text v s = (if s = text then Inr v else Inl (SyntaxError s))"

definition sample_record :: "string \<Rightarrow> int json" where
  "sample_record i =
     JObj [(''item_id'', JStr i),
           (''item_name'', JStr ''Chair''),
           (''item_description'', JStr ''Oak chair''),
           (''brand'', JStr ''WoodCraft''),
           (''manufacturer_address'',
              JObj [(''street'', JStr ''456 Lumber Ave''),
                    (''city'', JStr ''Portland''),
                    (''state'', JStr ''Oregon''),
                    (''postal_code'', JStr ''97201''),
                    (''country'', JStr ''USA'')]),
           (''prices'', JObj [(''full_price'', JNum 120), (''sale_price'', JNum 99)]),
           (''categories'', JArr [JStr ''chair'', JStr ''wood'']),
           (''user_reviews'', JArr []),
           (''notes'', JStr ''Sold in pairs'')]"

definition sample_item :: "string \<Rightarrow> int item" where
  "sample_item i =
     \<lparr>item_id = i, item_name = ''Chair'', item_description = ''Oak chair'',
      brand = ''WoodCraft'',
      manufacturer_address =
        \<lparr>street = ''456 Lumber Ave'', city = ''Portland'', state = ''Oregon'',
         postal_code = ''97201'', country = ''USA''\<rparr>,
      prices = \<lparr>full_price = 120, sale_price = 99\<rparr>,
      categories = [''chair'', ''wood''],
      user_reviews = [],
      notes = ''Sold in pairs''\<rparr>"

definition sample_text :: "string \<Rightarrow> string" where
  \<open>sample_text i =
     ''{"item_id":"'' @ i @ ''","item_name":"Chair","item_description":"Oak chair",''
     @ ''"brand":"WoodCraft","manufacturer_address":{"street":"456 Lumber Ave",''
     @ ''"city":"Portland","state":"Oregon","postal_code":"97201","country":"USA"},''
     @ ''"prices":{"full_price":120,"sale_price":99},"categories":["chair","wood"],''
     @ ''"user_reviews":[],"notes":"Sold in pairs"}''\<close>

definition sample_ids :: "string list" where
  "sample_ids = [''i01'', ''i02'', ''i03'', ''i04'', ''i05'', ''i06'', ''i07'', ''i08'',
                 ''i09'', ''i10'']"

definition sample_data :: "int json list" where
  "sample_data = map sample_record sample_ids"

definition sample_response :: string where
  "sample_response = ''['' @ join '','' (map sample_text sample_ids) @ '']''"

definition env_ok :: "(int, nat list) env" where
  "env_ok =
     \<lparr>fault = (\<lambda>_. None),
      llm_invoke = Inr sample_response,
      JSON_parse = parse_only sample_response sample_data,
      num_str = show_int,
      embed_fault = (\<lambda>_. None),
      embed_vector = (\<lambda>t. [length t]),
      insert_fault = (\<lambda>_. None)\<rparr>"

definition env_llm_down :: "(int, nat list) env" where
  "env_llm_down = env_ok\<lparr>llm_invoke := Inl (ServiceError ''model unavailable'')\<rparr>"

definition env_embed_down :: "(int, nat list) env" where
  "env_embed_down =
     env_ok\<lparr>embed_fault :=
              (\<lambda>k. if k = 1 then Some (ServiceError ''embedding failed'') else None)\<rparr>"

definition env_partial_write :: "(int, nat list) env" where
  "env_partial_write =
     env_ok\<lparr>insert_fault :=
              (\<lambda>k. if k = 1 then Some (ServiceError ''write failed'', 1) else None)\<rparr>"

definition env_prose :: "(int, nat list) env" where
  "env_prose =
     env_ok\<lparr>llm_invoke :=
              Inr (''Here is the data: '' @ sample_response @ '' [end of data]'')\<rparr>"

definition env_no_array :: "(int, nat list) env" where
  "env_no_array = env_ok\<lparr>llm_invoke := Inr ''Sorry, I cannot help with that.''\<rparr>"

definition env_empty :: "(int, nat list) env" where
  "env_empty = env_ok\<lparr>llm_invoke := Inr ''[]'', JSON_parse := parse_only ''[]'' []\<rparr>"

definition env_bare :: "(int, nat list) env" where
  "env_bare =
     env_ok\<lparr>llm_invoke := Inr ''[{}]'', JSON_parse := parse_only ''[{}]'' [JObj []]\<rparr>"

definition env_drop_down :: "(int, nat list) env" where
  "env_drop_down =
     env_ok\<lparr>fault :=
              (\<lambda>op. if op = DropIndexes then Some (ServiceError ''drop failed'') else None)\<rparr>"

definition env_index_down :: "(int, nat list) env" where
  "env_index_down =
     env_ok\<lparr>fault :=
              (\<lambda>op. if op = CreateSearchIndex then Some (ServiceError ''index creation failed'')
                    else None)\<rparr>"

definition w_fresh :: "(int, nat list) world" where
  "w_fresh =
     \<lparr>connected = False, collections = [], indexes = [], docs = [], calls = [],
      console_errors = []\<rparr>"

definition w_items :: "(int, nat list) world" where
  "w_items = w_fresh\<lparr>collections := [''items'']\<rparr>"

definition w_indexed :: "(int, nat list) world" where
  "w_indexed = w_fresh\<lparr>collections := [''items''], indexes := [vectorSearchIdx]\<rparr>"

section \<open>Facts about the summary\<close>

lemma as_str_SomeD: "as_str v = Some s \<Longrightarrow> v = Some (JStr s)"
  by (cases v rule: as_str.cases) auto

lemma as_num_SomeD: "as_num v = Some n \<Longrightarrow> v = Some (JNum n)"
  by (cases v rule: as_num.cases) auto

lemma as_arr_SomeD: "as_arr v = Some xs \<Longrightarrow> v = Some (JArr xs)"
  by (cases v rule: as_arr.cases) auto

lemma as_obj_SomeD: "as_obj v = Some b \<Longrightarrow> v = Some b \<and> (\<exists>kvs. b = JObj kvs)"
  by (cases v rule: as_obj.cases) auto

lemma field_get_prop: "field j k = Some v \<Longrightarrow> get_prop (Some j) k = Inr (Some v)"
  by (cases j) auto

lemma those_as_str:
  "those (map (\<lambda>c. as_str (Some c)) cs) = Some cats \<Longrightarrow>
   join_elems ns sep cs = Inr (join sep cats)"
proof (induction cs arbitrary: cats)
  case Nil
  then show ?case by simp
next
  case (Cons c cs)
  from Cons.prems obtain s cats' where
    c: "c = JStr s" and t: "those (map (\<lambda>c. as_str (Some c)) cs) = Some cats'"
    and cats: "cats = s # cats'"
    by (auto split: option.splits dest!: as_str_SomeD)
  show ?case
  proof (cases cs)
    case Nil
    then show ?thesis using c t cats by simp
  next
    case (Cons y ys)
    then obtain s' cats'' where "cats' = s' # cats''"
      using t by (auto split: option.splits)
    then show ?thesis
      using Cons.IH[OF t] c cats Cons by simp
  qed
qed

lemma as_review_text:
  assumes "as_review r = Some rv"
  shows "review_text ns r =
         Inr (''Rated '' @ ns (rating rv) @ '' on '' @ review_date rv @ '': '' @ comment rv)"
proof -
  from assms obtain d g c where
    d: "field r ''review_date'' = Some (JStr d)" and
    g: "field r ''rating'' = Some (JNum g)" and
    c: "field r ''comment'' = Some (JStr c)" and
    rv: "rv = \<lparr>review_date = d, rating = g, comment = c\<rparr>"
    by (auto simp: as_review_def bind_eq_Some_conv dest!: as_str_SomeD as_num_SomeD)
  show ?thesis
    by (simp add: review_text_def field_get_prop[OF d] field_get_prop[OF g]
        field_get_prop[OF c] rv)
qed

lemma those_as_review:
  "those (map as_review rs) = Some revs \<Longrightarrow>
   map_e (review_text ns) rs =
   Inr (map (\<lambda>r. ''Rated '' @ ns (rating r) @ '' on '' @ review_date r @ '': '' @ comment r) revs)"
proof (induction rs arbitrary: revs)
  case Nil
  then show ?case by simp
next
  case (Cons r rs)
  then show ?case
    by (auto split: option.splits simp: as_review_text)
qed

lemma as_item_summary:
  assumes "as_item j = Some it"
  shows "createItemSummary ns j = Inr (summarize ns it)"
proof -
  from assms obtain iid nm ds br ao ad po pr cs cats rs revs nt where
    f1: "field j ''item_name'' = Some (JStr nm)" and
    f2: "field j ''item_description'' = Some (JStr ds)" and
    f3: "field j ''brand'' = Some (JStr br)" and
    f4: "field j ''manufacturer_address'' = Some ao" and
    a: "as_address ao = Some ad" and
    f5: "field j ''prices'' = Some po" and
    p: "as_prices po = Some pr" and
    f6: "field j ''categories'' = Some (JArr cs)" and
    c: "those (map (\<lambda>c. as_str (Some c)) cs) = Some cats" and
    f7: "field j ''user_reviews'' = Some (JArr rs)" and
    r: "those (map as_review rs) = Some revs" and
    f8: "field j ''notes'' = Some (JStr nt)" and
    it: "it = \<lparr>item_id = iid, item_name = nm, item_description = ds, brand = br,
             manufacturer_address = ad, prices = pr, categories = cats,
             user_reviews = revs, notes = nt\<rparr>"
    by (auto simp: as_item_def bind_eq_Some_conv
        dest!: as_str_SomeD as_arr_SomeD as_obj_SomeD)
  from a obtain co where co: "field ao ''country'' = Some (JStr co)" "country ad = co"
    by (auto simp: as_address_def bind_eq_Some_conv dest!: as_str_SomeD)
  from p obtain fp sp where
    fp: "field po ''full_price'' = Some (JNum fp)" and
    sp: "field po ''sale_price'' = Some (JNum sp)" and
    pr: "pr = \<lparr>full_price = fp, sale_price = sp\<rparr>"
    by (auto simp: as_prices_def bind_eq_Some_conv dest!: as_num_SomeD)
  show ?thesis
    by (simp add: createItemSummary_def summarize_def review_segment_def
        field_get_prop[OF f1] field_get_prop[OF f2] field_get_prop[OF f3]
        field_get_prop[OF f4] field_get_prop[OF f5] field_get_prop[OF f6]
        field_get_prop[OF f7] field_get_prop[OF f8] field_get_prop[OF co(1)]
        field_get_prop[OF fp] field_get_prop[OF sp]
        those_as_str[OF c] those_as_review[OF r] it pr co(2))
qed

section \<open>Facts about the extraction of the array and the fallback records\<close>

lemma match_array_intro:
  assumes "CHR ''['' \<notin> set pre" "CHR '']'' \<notin> set post"
  shows "match_array (pre @ CHR ''['' # mid @ CHR '']'' # post) = Some (CHR ''['' # mid @ [CHR '']''])"
proof -
  have a1: "\<And>x. x \<in> set pre \<Longrightarrow> x \<noteq> CHR ''[''" using assms(1) by auto
  have a2: "\<And>x. x \<in> set (rev post) \<Longrightarrow> x \<noteq> CHR '']''" using assms(2) by auto
  have d1: "dropWhile (\<lambda>c. c \<noteq> CHR ''['') (pre @ CHR ''['' # mid @ CHR '']'' # post)
            = CHR ''['' # mid @ CHR '']'' # post"
    using dropWhile_append2[of pre "\<lambda>c. c \<noteq> CHR ''[''", OF a1] by simp
  have "rev (mid @ CHR '']'' # post) = rev post @ CHR '']'' # rev mid" by simp
  then have d2: "dropWhile (\<lambda>c. c \<noteq> CHR '']'') (rev (mid @ CHR '']'' # post)) = CHR '']'' # rev mid"
    using dropWhile_append2[of "rev post" "\<lambda>c. c \<noteq> CHR '']''", OF a2] by simp
  show ?thesis
    unfolding match_array_def d1 list.case Let_def d2 by simp
qed

lemma match_array_elim:
  assumes "match_array s = Some m"
  shows "\<exists>pre mid post. s = pre @ m @ post \<and> m = CHR ''['' # mid @ [CHR '']'']
           \<and> CHR ''['' \<notin> set pre \<and> CHR '']'' \<notin> set post"
proof -
  define pre where "pre = takeWhile (\<lambda>c. c \<noteq> CHR ''['') s"
  obtain b rest where dw: "dropWhile (\<lambda>c. c \<noteq> CHR ''['') s = b # rest"
    using assms by (auto simp: match_array_def split: list.splits)
  define tl' where "tl' = dropWhile (\<lambda>c. c \<noteq> CHR '']'') (rev rest)"
  define post where "post = rev (takeWhile (\<lambda>c. c \<noteq> CHR '']'') (rev rest))"
  have b: "b = CHR ''[''"
    using hd_dropWhile[of "\<lambda>c. c \<noteq> CHR ''[''" s] dw by simp
  have m: "m = b # rev tl'" and ne: "tl' \<noteq> []"
    using assms dw by (auto simp: match_array_def tl'_def Let_def split: if_splits)
  have s: "s = pre @ b # rest"
    using takeWhile_dropWhile_id[of "\<lambda>c. c \<noteq> CHR ''[''" s] dw by (simp add: pre_def)
  have "rev rest = rev post @ tl'"
    by (simp add: post_def tl'_def)
  then have rest: "rest = rev tl' @ post"
    by (metis rev_append rev_rev_ident)
  have "hd tl' = CHR '']''"
    using hd_dropWhile[of "\<lambda>c. c \<noteq> CHR '']''" "rev rest"] ne by (simp add: tl'_def)
  then obtain t where t: "tl' = CHR '']'' # t"
    using ne by (cases tl') auto
  have p1: "CHR ''['' \<notin> set pre"
    by (auto simp: pre_def dest: set_takeWhileD)
  have p2: "CHR '']'' \<notin> set post"
    by (auto simp: post_def dest: set_takeWhileD)
  have "s = pre @ m @ post" by (simp add: s m rest)
  moreover have "m = CHR ''['' # rev t @ [CHR '']'']" by (simp add: m b t)
  ultimately show ?thesis using p1 p2 by blast
qed

lemma match_array_span:
  assumes s: "s = pre @ CHR ''['' # mid @ CHR '']'' # post"
  shows "match_array s \<noteq> None"
proof -
  have "CHR ''['' \<in> set s" by (simp add: s)
  then obtain p1 r1 where s1: "s = p1 @ CHR ''['' # r1" and p1: "CHR ''['' \<notin> set p1"
    by (auto dest: split_list_first)
  have "\<exists>us. pre = p1 @ us \<and> CHR ''['' # r1 = us @ CHR ''['' # mid @ CHR '']'' # post"
  proof -
    from s s1 have "p1 @ CHR ''['' # r1 = pre @ CHR ''['' # mid @ CHR '']'' # post" by simp
    then consider us where "p1 = pre @ us" "us @ CHR ''['' # r1 = CHR ''['' # mid @ CHR '']'' # post"
      | us where "p1 @ us = pre" "CHR ''['' # r1 = us @ CHR ''['' # mid @ CHR '']'' # post"
      by (auto simp: append_eq_append_conv2)
    then show ?thesis
    proof cases
      case 1
      then have "us = []" using p1 by (cases us) auto
      with 1 show ?thesis by auto
    next
      case 2
      then show ?thesis by auto
    qed
  qed
  then obtain us where "CHR ''['' # r1 = us @ CHR ''['' # mid @ CHR '']'' # post" by blast
  then have "CHR '']'' \<in> set (CHR ''['' # r1)" by simp
  then have "CHR '']'' \<in> set r1" by simp
  then obtain m1 q1 where r1: "r1 = m1 @ CHR '']'' # q1" and q1: "CHR '']'' \<notin> set q1"
    by (auto dest: split_list_last)
  show ?thesis
    using match_array_intro[OF p1 q1, of m1] by (simp add: s1 r1)
qed

lemma match_array_None_iff:
  "match_array s = None \<longleftrightarrow> \<not> (\<exists>pre mid post. s = pre @ CHR ''['' # mid @ CHR '']'' # post)"
proof
  assume n: "match_array s = None"
  then show "\<not> (\<exists>pre mid post. s = pre @ CHR ''['' # mid @ CHR '']'' # post)"
    using match_array_span by blast
next
  assume a: "\<not> (\<exists>pre mid post. s = pre @ CHR ''['' # mid @ CHR '']'' # post)"
  show "match_array s = None"
  proof (rule ccontr)
    assume "match_array s \<noteq> None"
    then obtain m where "match_array s = Some m" by auto
    from match_array_elim[OF this] obtain pre mid post where
      "s = pre @ (CHR ''['' # mid @ [CHR '']'']) @ post" by blast
    then have "s = pre @ CHR ''['' # mid @ CHR '']'' # post" by simp
    with a show False by blast
  qed
qed

lemma fallback_valid: "list_all valid_item (generateFallbackData :: ('n::numeral) json list)"
  by (simp add: generateFallbackData_def valid_item_def as_item_def as_address_def
      as_prices_def as_review_def)

lemma fallback_full: "list_all fully_populated (generateFallbackData :: ('n::numeral) json list)"
  by (simp add: generateFallbackData_def fully_populated_def as_item_def as_address_def
      as_prices_def as_review_def)

section \<open>Facts about the batches of the loop\<close>

declare chunks.simps [simp del]
declare load_loop.simps [simp del]

lemma chunks_Nil [simp]: "chunks n [] = []"
  by (simp add: chunks.simps)

lemma chunks_Cons: "0 < n \<Longrightarrow> xs \<noteq> [] \<Longrightarrow> chunks n xs = take n xs # chunks n (drop n xs)"
  by (subst chunks.simps) simp

lemma concat_chunks: "0 < n \<Longrightarrow> concat (chunks n xs) = xs"
proof (induction n xs rule: chunks.induct)
  case (1 n xs)
  show ?case
  proof (cases "xs = []")
    case True
    then show ?thesis by simp
  next
    case False
    have "concat (chunks n (drop n xs)) = drop n xs"
      using 1 False by simp
    then show ?thesis
      unfolding chunks_Cons[OF 1(2) False] by simp
  qed
qed


lemma length_chunks: "0 < n \<Longrightarrow> length (chunks n xs) = (length xs + n - 1) div n"
proof (induction n xs rule: chunks.induct)
  case (1 n xs)
  show ?case
  proof (cases "xs = []")
    case True
    then show ?thesis using 1(2) by simp
  next
    case False
    have ih: "length (chunks n (drop n xs)) = (length xs - n + n - 1) div n"
      using 1 False by simp
    have step: "length (chunks n xs) = Suc (length (chunks n (drop n xs)))"
      unfolding chunks_Cons[OF 1(2) False] by simp
    show ?thesis
    proof (cases "n \<le> length xs")
      case True
      have e: "length xs + n - 1 = (length xs - 1) + n" using False by (cases xs) auto
      have "(length xs + n - 1) div n = ((length xs - 1) + n) div n"
        by (simp only: e)
      also have "\<dots> = Suc ((length xs - 1) div n)"
        using 1(2) by simp
      finally have "(length xs + n - 1) div n = Suc ((length xs - 1) div n)" .
      moreover have "length xs - n + n - 1 = length xs - 1" using True by simp
      ultimately show ?thesis using step ih by simp
    next
      case nle: False
      obtain m where m: "length xs = Suc m" using False by (cases xs) auto
      have "(length xs + n - 1) div n = 1"
        using nle 1(2) unfolding m by (intro div_nat_eqI) auto
      moreover have "(length xs - n + n - 1) div n = 0"
        using nle 1(2) by simp
      ultimately show ?thesis using step ih by simp
    qed
  qed
qed

lemma chunks_bounds: "0 < n \<Longrightarrow> b \<in> set (chunks n xs) \<Longrightarrow> b \<noteq> [] \<and> length b \<le> n"
proof (induction n xs rule: chunks.induct)
  case (1 n xs)
  show ?case
  proof (cases "xs = []")
    case True
    then show ?thesis using 1(3) by simp
  next
    case False
    from 1(3) have "b = take n xs \<or> b \<in> set (chunks n (drop n xs))"
      unfolding chunks_Cons[OF 1(2) False] by simp
    then show ?thesis
    proof
      assume "b = take n xs"
      then show ?thesis using False 1(2) by simp
    next
      assume "b \<in> set (chunks n (drop n xs))"
      then show ?thesis using 1(1)[OF _ 1(2)] False 1(2) by simp
    qed
  qed
qed

lemma chunks_append:
  "0 < n \<Longrightarrow> length xs = n * k \<Longrightarrow> chunks n (xs @ ys) = chunks n xs @ chunks n ys"
proof (induction k arbitrary: xs)
  case 0
  then show ?case by simp
next
  case (Suc k)
  then have ne: "xs \<noteq> []" "n \<le> length xs" by auto
  then have ne': "xs @ ys \<noteq> []" by simp
  have l: "length (drop n xs) = n * k" using Suc.prems by simp
  have "chunks n (xs @ ys) = take n xs # chunks n (drop n xs @ ys)"
    unfolding chunks_Cons[OF Suc.prems(1) ne'] using ne by simp
  also have "\<dots> = take n xs # (chunks n (drop n xs) @ chunks n ys)"
    using Suc.IH[OF Suc.prems(1) l] by simp
  also have "\<dots> = chunks n xs @ chunks n ys"
    unfolding chunks_Cons[OF Suc.prems(1) ne(1)] by simp
  finally show ?case .
qed

lemma ceiling_batches: "(n + 2) div 3 = nat \<lceil>real n / real batchSize\<rceil>"
proof -
  have "\<lceil>real n / real batchSize\<rceil> = \<lceil>real_of_int (int n) / real_of_int 3\<rceil>"
    by (simp add: batchSize_def)
  also have "\<dots> = - (- int n div 3)"
    by (rule ceiling_divide_eq_div)
  finally have "\<lceil>real n / real batchSize\<rceil> = - (- int n div 3)" .
  moreover have "- (- int n div 3) = int ((n + 2) div 3)" by presburger
  ultimately show ?thesis by simp
qed


lemma load_loop_chunks:
  "load_loop env xs i w = run_batches env (i div batchSize) (chunks batchSize (drop i xs)) w"
proof (induction env xs i w rule: load_loop.induct)
  case (1 env xs i w)
  show ?case
  proof (cases "i < length xs")
    case True
    then have ne: "drop i xs \<noteq> []" by simp
    have bs: "0 < batchSize" by (simp add: batchSize_def)
    have c: "chunks batchSize (drop i xs)
             = slice xs i (i + batchSize) # chunks batchSize (drop (i + batchSize) xs)"
      unfolding chunks_Cons[OF bs ne] by (simp add: slice_def add.commute)
    have k: "(i + batchSize) div batchSize = Suc (i div batchSize)"
      by (simp add: batchSize_def)
    obtain r w' where pb:
      "process_batch env (i div batchSize) (slice xs i (i + batchSize)) w = (r, w')"
      by fastforce
    show ?thesis
    proof (cases r)
      case (Inl e)
      then show ?thesis
        unfolding c using True pb by (subst load_loop.simps) simp
    next
      case (Inr u)
      have "load_loop env xs (i + batchSize) w'
            = run_batches env (Suc (i div batchSize))
                (chunks batchSize (drop (i + batchSize) xs)) w'"
        using 1[OF True refl pb[symmetric] Inr] by (simp only: k)
      then show ?thesis
        unfolding c using True pb Inr by (subst load_loop.simps) simp
    qed
  next
    case False
    then show ?thesis by (subst load_loop.simps) simp
  qed
qed

section \<open>Facts about one pass of the loop body\<close>

lemma valid_summary:
  "valid_item r \<Longrightarrow> createItemSummary (num_str env) r = Inr (summary_of env r)"
  by (auto simp: valid_item_def summary_of_def as_item_summary)

lemma map_e_summaries:
  "list_all valid_item b \<Longrightarrow>
   map_e (\<lambda>record. bind_e (createItemSummary (num_str env) record)
                     (\<lambda>pageContent. Inr (pageContent, record))) b
   = Inr (map (\<lambda>r. (summary_of env r, r)) b)"
  by (induction b) (simp_all add: valid_summary)

lemma process_batch_ok:
  assumes "list_all valid_item b" "embed_fault env k = None" "insert_fault env k = None"
  shows "process_batch env k b w =
         (Inr (), w\<lparr>docs := docs w @ map (stored env) b,
                    calls := calls w @ [CEmbed (map (summary_of env) b),
                                        CInsertMany (map (stored env) b)]\<rparr>)"
  using assms
  by (simp add: process_batch_def map_e_summaries fromDocuments_def called_def
      stored_def[abs_def] comp_def Let_def)

lemma process_batch_embed_fail:
  assumes "list_all valid_item b" "embed_fault env k = Some e"
  shows "process_batch env k b w =
         (Inl e, w\<lparr>calls := calls w @ [CEmbed (map (summary_of env) b)]\<rparr>)"
  using assms
  by (simp add: process_batch_def map_e_summaries fromDocuments_def called_def comp_def)

lemma process_batch_insert_fail:
  assumes "list_all valid_item b" "embed_fault env k = None" "insert_fault env k = Some (e, n)"
  shows "process_batch env k b w =
         (Inl e, w\<lparr>docs := docs w @ take n (map (stored env) b),
                    calls := calls w @ [CEmbed (map (summary_of env) b),
                                        CInsertMany (map (stored env) b)]\<rparr>)"
  using assms
  by (simp add: process_batch_def map_e_summaries fromDocuments_def called_def
      stored_def[abs_def] comp_def Let_def)

lemma run_batches_ok:
  assumes "\<forall>b\<in>set bs. list_all valid_item b"
    "\<forall>j<length bs. embed_fault env (k + j) = None \<and> insert_fault env (k + j) = None"
  shows "run_batches env k (bs @ rest) w =
         run_batches env (k + length bs) rest
           (w\<lparr>docs := docs w @ map (stored env) (concat bs),
              calls := calls w @ concat (map (batch_calls env) bs)\<rparr>)"
  using assms
proof (induction bs arbitrary: k w)
  case Nil
  then show ?case by simp
next
  case (Cons b bs)
  have b: "list_all valid_item b" and k0: "embed_fault env k = None" "insert_fault env k = None"
    using Cons.prems by auto
  have rest: "\<forall>j<length bs. embed_fault env (Suc k + j) = None \<and> insert_fault env (Suc k + j) = None"
    using Cons.prems(2) by auto
  have v: "\<forall>b\<in>set bs. list_all valid_item b" using Cons.prems(1) by simp
  show ?case
    by (simp add: process_batch_ok[OF b k0] Cons.IH[OF v rest] batch_calls_def)
qed

section \<open>Facts about the steps of a run\<close>

lemma insert_calls_append: "insert_calls (xs @ ys) = insert_calls xs @ insert_calls ys"
  by (induction xs rule: insert_calls.induct) simp_all

lemma embed_calls_append: "embed_calls (xs @ ys) = embed_calls xs @ embed_calls ys"
  by (induction xs rule: embed_calls.induct) simp_all

lemma insert_calls_batches:
  "insert_calls (concat (map (batch_calls env) bs)) = map (map (stored env)) bs"
  by (induction bs) (simp_all add: batch_calls_def)

lemma embed_calls_batches:
  "embed_calls (concat (map (batch_calls env) bs)) = map (map (summary_of env)) bs"
  by (induction bs) (simp_all add: batch_calls_def)

lemma bind_s_assoc: "bind_s (bind_s m f) g = bind_s m (\<lambda>x. bind_s (f x) g)"
  by (auto simp: bind_s_def fun_eq_iff split: prod.splits sum.splits)

lemma seed_steps_split:
  "seed_steps env =
   bind_s (provision_steps env) (\<lambda>_.
   bind_s (generateSyntheticData env) (\<lambda>syntheticData. load_loop env syntheticData 0))"
  by (simp add: seed_steps_def provision_steps_def bind_s_assoc)

lemma setup_quiet:
  "setupDatabaseAndCollection env w = (r, w1) \<Longrightarrow>
   embed_calls (calls w1) = embed_calls (calls w) \<and> insert_calls (calls w1) = insert_calls (calls w)
   \<and> docs w1 = docs w \<and> connected w1 = connected w"
  by (auto simp: setupDatabaseAndCollection_def bind_s_def listCollections_def
      createCollection_def called_def Let_def embed_calls_append insert_calls_append
      split: option.splits if_splits)

lemma index_quiet:
  "createVectorSearchIndex env w = (r, w1) \<Longrightarrow>
   r = Inr () \<and> embed_calls (calls w1) = embed_calls (calls w)
   \<and> insert_calls (calls w1) = insert_calls (calls w)
   \<and> docs w1 = docs w \<and> connected w1 = connected w"
  by (auto simp: createVectorSearchIndex_def bind_s_def dropIndexes_def createSearchIndex_def
      called_def console_error_def Let_def embed_calls_append insert_calls_append
      split: option.splits)

lemma setup_ok:
  assumes "fault env ListCollections = None" "fault env CreateCollection = None"
  shows "fst (setupDatabaseAndCollection env w) = Inr ()"
  using assms
  by (auto simp: setupDatabaseAndCollection_def bind_s_def listCollections_def
      createCollection_def called_def Let_def filter_empty_conv)

lemma bind_s_cases:
  assumes "bind_s m f w = (r, w2)"
  shows "(\<exists>e. m w = (Inl e, w2) \<and> r = Inl e) \<or> (\<exists>x w1. m w = (Inr x, w1) \<and> f x w1 = (r, w2))"
  using assms by (auto simp: bind_s_def split: prod.splits sum.splits)

lemma connect_quiet:
  "connect env w = (r, w1) \<Longrightarrow>
   embed_calls (calls w1) = embed_calls (calls w) \<and> insert_calls (calls w1) = insert_calls (calls w)"
  by (auto simp: connect_def called_def Let_def embed_calls_append insert_calls_append
      split: option.splits)

lemma ping_quiet:
  "ping env w = (r, w1) \<Longrightarrow>
   embed_calls (calls w1) = embed_calls (calls w) \<and> insert_calls (calls w1) = insert_calls (calls w)"
  by (auto simp: ping_def called_def Let_def embed_calls_append insert_calls_append
      split: option.splits)

lemma deleteMany_quiet:
  "deleteMany env w = (r, w1) \<Longrightarrow>
   embed_calls (calls w1) = embed_calls (calls w) \<and> insert_calls (calls w1) = insert_calls (calls w)"
  by (auto simp: deleteMany_def called_def Let_def embed_calls_append insert_calls_append
      split: option.splits)

lemma provision_quiet:
  assumes "provision_steps env w = (r, w1)"
  shows "embed_calls (calls w1) = embed_calls (calls w)
         \<and> insert_calls (calls w1) = insert_calls (calls w)"
  using assms unfolding provision_steps_def
  by (auto dest!: bind_s_cases connect_quiet ping_quiet setup_quiet index_quiet
      deleteMany_quiet)

lemma provision_ok:
  assumes "fault env Connect = None" "fault env Ping = None"
    "fault env ListCollections = None" "fault env CreateCollection = None"
    "fault env DeleteMany = None"
  shows "\<exists>w1. provision_steps env w = (Inr (), w1) \<and> docs w1 = [] \<and> connected w1"
proof -
  obtain w1 where c: "connect env w = (Inr (), w1)" "connected w1"
    using assms(1) by (simp add: connect_def called_def Let_def)
  obtain w2 where p: "ping env w1 = (Inr (), w2)" "connected w2"
    using assms(2) c(2) by (simp add: ping_def called_def Let_def)
  obtain r3 w3 where s: "setupDatabaseAndCollection env w2 = (r3, w3)"
    by fastforce
  have r3: "r3 = Inr ()" using setup_ok[OF assms(3,4), of w2] s by simp
  have c3: "connected w3" using setup_quiet[OF s] p(2) by simp
  obtain r4 w4 where i: "createVectorSearchIndex env w3 = (r4, w4)"
    by fastforce
  have r4: "r4 = Inr ()" and c4: "connected w4"
    using index_quiet[OF i] c3 by simp_all
  obtain w5 where d: "deleteMany env w4 = (Inr (), w5)" "docs w5 = []" "connected w5"
    using assms(5) c4 by (simp add: deleteMany_def called_def Let_def)
  have "provision_steps env w = (Inr (), w5)"
    by (simp add: provision_steps_def bind_s_def c(1) p(1) s r3 i r4 d(1))
  then show ?thesis using d by blast
qed

lemma gen_fail:
  "llm_invoke env = Inl e \<Longrightarrow> generateSyntheticData env w = (Inl e, called CInvoke w)"
  by (simp add: generateSyntheticData_def)

lemma gen_frame:
  "generateSyntheticData env w = (r, w1) \<Longrightarrow>
   docs w1 = docs w \<and> calls w1 = calls w @ [CInvoke] \<and> connected w1 = connected w"
  by (auto simp: generateSyntheticData_def called_def console_error_def Let_def
      split: sum.splits)

lemma gen_fst: "fst (generateSyntheticData env w) = fst (generateSyntheticData env w')"
  by (simp add: generateSyntheticData_def Let_def split: sum.splits)

section \<open>The outcome of the load loop\<close>

lemma batch_index_bound:
  assumes "j < (n + 2) div 3"
  shows "j * batchSize < n"
  using assms by (simp add: batchSize_def)

lemma chunks_valid:
  assumes "list_all valid_item data" "b \<in> set (chunks batchSize data)"
  shows "list_all valid_item b"
proof -
  have "set b \<subseteq> set (concat (chunks batchSize data))" using assms(2) by auto
  then have "set b \<subseteq> set data" by (simp add: concat_chunks batchSize_def)
  then show ?thesis using assms(1) by (auto simp: list_all_iff)
qed

lemma load_ok:
  assumes valid: "list_all valid_item data"
    and ok: "\<forall>k. k * batchSize < length data \<longrightarrow>
                 embed_fault env k = None \<and> insert_fault env k = None"
  shows "load_loop env data 0 w =
         (Inr (), w\<lparr>docs := docs w @ map (stored env) data,
                    calls := calls w @ concat (map (batch_calls env) (chunks batchSize data))\<rparr>)"
proof -
  have len: "length (chunks batchSize data) = (length data + 2) div 3"
    by (simp add: length_chunks batchSize_def)
  have v: "\<forall>b\<in>set (chunks batchSize data). list_all valid_item b"
    using chunks_valid[OF valid] by blast
  have f: "\<forall>j<length (chunks batchSize data).
             embed_fault env (0 + j) = None \<and> insert_fault env (0 + j) = None"
    using ok batch_index_bound unfolding len by simp
  have "load_loop env data 0 w = run_batches env 0 (chunks batchSize data @ []) w"
    by (simp add: load_loop_chunks)
  also have "\<dots> = run_batches env (0 + length (chunks batchSize data)) []
      (w\<lparr>docs := docs w @ map (stored env) (concat (chunks batchSize data)),
         calls := calls w @ concat (map (batch_calls env) (chunks batchSize data))\<rparr>)"
    by (rule run_batches_ok[OF v f])
  finally show ?thesis by (simp add: concat_chunks batchSize_def)
qed

lemma chunks_take_length:
  assumes "k * batchSize \<le> length data"
  shows "length (chunks batchSize (take (k * batchSize) data)) = k"
proof -
  have "length (take (k * batchSize) data) = k * 3" using assms by (simp add: batchSize_def)
  then have "length (chunks batchSize (take (k * batchSize) data)) = (k * 3 + 3 - 1) div 3"
    by (simp add: length_chunks batchSize_def)
  also have "\<dots> = k" by presburger
  finally show ?thesis .
qed

lemma load_upto:
  assumes valid: "list_all valid_item data"
    and k: "k * batchSize < length data"
    and before: "\<forall>j<k. embed_fault env j = None \<and> insert_fault env j = None"
  shows "load_loop env data 0 w =
         run_batches env k
           (slice data (k * batchSize) (k * batchSize + batchSize)
            # chunks batchSize (drop (k * batchSize + batchSize) data))
           (w\<lparr>docs := docs w @ map (stored env) (take (k * batchSize) data),
              calls := calls w @ concat (map (batch_calls env)
                         (chunks batchSize (take (k * batchSize) data)))\<rparr>)"
proof -
  let ?pre = "take (k * batchSize) data" and ?post = "drop (k * batchSize) data"
  have bs: "0 < batchSize" by (simp add: batchSize_def)
  have lp: "length ?pre = batchSize * k" using k by (simp add: mult.commute)
  have ne: "?post \<noteq> []" using k by simp
  have "chunks batchSize data = chunks batchSize (?pre @ ?post)" by simp
  also have "\<dots> = chunks batchSize ?pre @ chunks batchSize ?post"
    by (rule chunks_append[OF bs lp])
  also have "chunks batchSize ?post
             = slice data (k * batchSize) (k * batchSize + batchSize)
               # chunks batchSize (drop (k * batchSize + batchSize) data)"
    unfolding chunks_Cons[OF bs ne] by (simp add: slice_def add.commute)
  finally have c: "chunks batchSize data
       = chunks batchSize ?pre @ (slice data (k * batchSize) (k * batchSize + batchSize)
               # chunks batchSize (drop (k * batchSize + batchSize) data))" .
  have lk: "length (chunks batchSize ?pre) = k"
    using chunks_take_length[of k data] k by simp
  have vp: "list_all valid_item ?pre"
    using valid by (auto simp: list_all_iff dest: in_set_takeD)
  have v: "\<forall>b\<in>set (chunks batchSize ?pre). list_all valid_item b"
    using chunks_valid[OF vp] by blast
  have f: "\<forall>j<length (chunks batchSize ?pre).
             embed_fault env (0 + j) = None \<and> insert_fault env (0 + j) = None"
    using before unfolding lk by simp
  have "load_loop env data 0 w = run_batches env 0 (chunks batchSize data) w"
    by (simp add: load_loop_chunks)
  also have "\<dots> = run_batches env (0 + length (chunks batchSize ?pre))
       (slice data (k * batchSize) (k * batchSize + batchSize)
               # chunks batchSize (drop (k * batchSize + batchSize) data))
       (w\<lparr>docs := docs w @ map (stored env) (concat (chunks batchSize ?pre)),
              calls := calls w @ concat (map (batch_calls env) (chunks batchSize ?pre))\<rparr>)"
    unfolding c by (rule run_batches_ok[OF v f])
  finally show ?thesis
    by (simp only: lk concat_chunks[OF bs] add_0)
qed

section \<open>What a completed load has done\<close>

lemma map_e_pairs:
  "map_e (\<lambda>record. bind_e (f record) (\<lambda>pageContent. Inr (pageContent, record))) b = Inr ps
   \<Longrightarrow> map snd ps = b"
proof (induction b arbitrary: ps)
  case Nil
  then show ?case by simp
next
  case (Cons r b)
  from Cons.prems obtain s where s: "f r = Inr s"
    by (cases "f r") auto
  from Cons.prems s obtain qs where
    qs: "map_e (\<lambda>record. bind_e (f record) (\<lambda>pageContent. Inr (pageContent, record))) b = Inr qs"
    by (cases "map_e (\<lambda>record. bind_e (f record) (\<lambda>pageContent. Inr (pageContent, record))) b")
      auto
  from Cons.prems s qs have "ps = (s, r) # qs" by simp
  then show ?case using Cons.IH[OF qs] by simp
qed

lemma process_batch_Inr:
  assumes "process_batch env k b w = (Inr u, w')"
  shows "\<exists>ds. map metadata ds = b
           \<and> calls w' = calls w @ [CEmbed (map embedding_text ds), CInsertMany ds]
           \<and> docs w' = docs w @ ds"
proof -
  from assms obtain ps where
    ps: "map_e (\<lambda>record. bind_e (createItemSummary (num_str env) record)
                              (\<lambda>pageContent. Inr (pageContent, record))) b = Inr ps"
    and fd: "fromDocuments env k ps w = (Inr u, w')"
    by (auto simp: process_batch_def split: sum.splits)
  define ds where "ds = map (\<lambda>(pageContent, record).
                      \<lparr>embedding_text = pageContent,
                       embedding = embed_vector env pageContent,
                       metadata = record\<rparr>) ps"
  have m: "map metadata ds = b"
    using map_e_pairs[OF ps] by (simp add: ds_def comp_def case_prod_unfold)
  have t: "map embedding_text ds = map fst ps"
    by (simp add: ds_def comp_def case_prod_unfold)
  have "calls w' = calls w @ [CEmbed (map fst ps), CInsertMany ds] \<and> docs w' = docs w @ ds"
    using fd
    by (auto simp: fromDocuments_def called_def Let_def ds_def split: option.splits)
  then show ?thesis using m t by auto
qed

lemma run_batches_Inr:
  "run_batches env k bs w = (Inr u, w') \<Longrightarrow>
   \<exists>dss. map (map metadata) dss = bs
     \<and> insert_calls (calls w') = insert_calls (calls w) @ dss
     \<and> docs w' = docs w @ concat dss"
proof (induction bs arbitrary: k w)
  case Nil
  then show ?case by simp
next
  case (Cons b bs)
  from Cons.prems obtain u1 w1 where
    p: "process_batch env k b w = (Inr u1, w1)" and r: "run_batches env (Suc k) bs w1 = (Inr u, w')"
    by (auto split: prod.splits sum.splits)
  from process_batch_Inr[OF p] obtain ds where
    ds: "map metadata ds = b" "calls w1 = calls w @ [CEmbed (map embedding_text ds), CInsertMany ds]"
        "docs w1 = docs w @ ds" by blast
  from Cons.IH[OF r] obtain dss where
    dss: "map (map metadata) dss = bs" "insert_calls (calls w') = insert_calls (calls w1) @ dss"
         "docs w' = docs w1 @ concat dss" by blast
  have "map (map metadata) (ds # dss) = b # bs
     \<and> insert_calls (calls w') = insert_calls (calls w) @ (ds # dss)
     \<and> docs w' = docs w @ concat (ds # dss)"
    using ds dss by (simp add: insert_calls_append)
  then show ?case by (rule exI[where x = "ds # dss"])
qed

lemma load_Inr:
  assumes "load_loop env data 0 w = (Inr u, w')"
  shows "\<exists>bs. insert_calls (calls w') = insert_calls (calls w) @ bs
     \<and> length bs = nat \<lceil>real (length data) / real batchSize\<rceil>
     \<and> concat (map (map metadata) bs) = data
     \<and> (\<forall>b\<in>set bs. b \<noteq> [] \<and> length b \<le> batchSize)
     \<and> map metadata (docs w') = map metadata (docs w) @ data"
proof -
  have bs: "0 < batchSize" by (simp add: batchSize_def)
  have "run_batches env 0 (chunks batchSize data) w = (Inr u, w')"
    using assms by (simp add: load_loop_chunks)
  from run_batches_Inr[OF this] obtain dss where
    m: "map (map metadata) dss = chunks batchSize data"
    and i: "insert_calls (calls w') = insert_calls (calls w) @ dss"
    and d: "docs w' = docs w @ concat dss" by blast
  have "length dss = length (chunks batchSize data)"
    using m by (metis length_map)
  then have n: "length dss = nat \<lceil>real (length data) / real batchSize\<rceil>"
    using ceiling_batches[of "length data"] by (simp add: length_chunks batchSize_def)
  have c: "concat (map (map metadata) dss) = data"
    unfolding m by (rule concat_chunks[OF bs])
  have b: "\<forall>b\<in>set dss. b \<noteq> [] \<and> length b \<le> batchSize"
  proof
    fix b assume "b \<in> set dss"
    then have "map metadata b \<in> set (chunks batchSize data)"
      using m by (metis image_eqI set_map)
    from chunks_bounds[OF bs this] show "b \<noteq> [] \<and> length b \<le> batchSize" by simp
  qed
  have "map metadata (docs w') = map metadata (docs w) @ concat (map (map metadata) dss)"
    by (simp add: d map_concat)
  then have dd: "map metadata (docs w') = map metadata (docs w) @ data"
    by (simp only: c)
  from i n c b dd show ?thesis by blast
qed

section \<open>A run whose load fails\<close>

lemma metadata_stored_o: "map (metadata \<circ> stored env) b = b"
  by (induction b) (simp_all add: stored_def)

lemma close_fields:
  "docs (close w) = docs w" "calls (close w) = calls w @ [CClose]" "\<not> connected (close w)"
  "console_errors (close w) = console_errors w"
  by (simp_all add: close_def called_def)

lemma console_error_fields:
  "docs (console_error m e w) = docs w" "calls (console_error m e w) = calls w"
  "console_errors (console_error m e w) = console_errors w @ [(m, e)]"
  by (simp_all add: console_error_def)

lemma seedDatabase_Inl:
  "seed_steps env w = (Inl e, w1) \<Longrightarrow>
   seedDatabase env w = close (console_error ''Error seeding database:'' e w1)"
  by (simp add: seedDatabase_def)

lemma seedDatabase_Inr:
  "seed_steps env w = (Inr u, w1) \<Longrightarrow> seedDatabase env w = close w1"
  by (simp add: seedDatabase_def)

lemma gen_ok:
  assumes "fst (generateSyntheticData env w') = Inr data"
  shows "\<exists>w2. generateSyntheticData env w1 = (Inr data, w2) \<and> docs w2 = docs w1
          \<and> calls w2 = calls w1 @ [CInvoke]"
proof -
  obtain r w2 where g: "generateSyntheticData env w1 = (r, w2)" by fastforce
  have "r = Inr data" using gen_fst[of env w1 w'] g assms by simp
  then show ?thesis using g gen_frame[OF g] by blast
qed

lemma seed_load_failure:
  assumes prov: "fault env Connect = None" "fault env Ping = None"
      "fault env ListCollections = None" "fault env CreateCollection = None"
      "fault env DeleteMany = None"
    and gen: "fst (generateSyntheticData env w') = Inr data"
    and valid: "list_all valid_item data"
    and k: "k * batchSize < length data"
    and before: "\<forall>j<k. embed_fault env j = None \<and> insert_fault env j = None"
    and fail: "embed_fault env k = Some e
               \<or> (embed_fault env k = None \<and> insert_fault env k = Some (e, n))"
  shows "fst (seed_steps env w) = Inl e
     \<and> map metadata (docs (seedDatabase env w))
         = take (k * batchSize) data
           @ (if embed_fault env k = None
              then take n (slice data (k * batchSize) (k * batchSize + batchSize)) else [])
     \<and> length (embed_calls (calls (seedDatabase env w)))
         = length (embed_calls (calls w)) + Suc k
     \<and> length (insert_calls (calls (seedDatabase env w)))
         = length (insert_calls (calls w)) + (if embed_fault env k = None then Suc k else k)
     \<and> last (console_errors (seedDatabase env w)) = (''Error seeding database:'', e)
     \<and> \<not> connected (seedDatabase env w)
     \<and> last (calls (seedDatabase env w)) = CClose"
proof -
  let ?b = "slice data (k * batchSize) (k * batchSize + batchSize)"
  let ?pre = "take (k * batchSize) data"
  obtain w1 where p: "provision_steps env w = (Inr (), w1)" and d1: "docs w1 = []"
    using provision_ok[OF prov] by blast
  note q1 = provision_quiet[OF p]
  obtain w2 where g: "generateSyntheticData env w1 = (Inr data, w2)"
    and d2: "docs w2 = docs w1" and c2: "calls w2 = calls w1 @ [CInvoke]"
    using gen_ok[OF gen] by blast
  define w3 where "w3 = w2\<lparr>docs := docs w2 @ map (stored env) ?pre,
              calls := calls w2 @ concat (map (batch_calls env) (chunks batchSize ?pre))\<rparr>"
  have l: "load_loop env data 0 w2 =
           run_batches env k (?b # chunks batchSize (drop (k * batchSize + batchSize) data)) w3"
    unfolding w3_def by (rule load_upto[OF valid k before])
  have vb: "list_all valid_item ?b"
    using valid by (auto simp: list_all_iff slice_def dest: in_set_takeD in_set_dropD)
  have lk: "length (chunks batchSize ?pre) = k"
    using chunks_take_length[of k data] k by simp
  have e3: "length (embed_calls (calls w3)) = length (embed_calls (calls w)) + k"
    by (simp add: w3_def c2 embed_calls_append embed_calls_batches q1 lk)
  have i3: "length (insert_calls (calls w3)) = length (insert_calls (calls w)) + k"
    by (simp add: w3_def c2 insert_calls_append insert_calls_batches q1 lk)
  have m3: "map metadata (docs w3) = ?pre"
    by (simp add: w3_def d2 d1 metadata_stored_o)
  from fail show ?thesis
  proof
    assume f: "embed_fault env k = Some e"
    define w4 where "w4 = w3\<lparr>calls := calls w3 @ [CEmbed (map (summary_of env) ?b)]\<rparr>"
    have "load_loop env data 0 w2 = (Inl e, w4)"
      unfolding l w4_def by (simp add: process_batch_embed_fail[OF vb f])
    then have s: "seed_steps env w = (Inl e, w4)"
      by (simp add: seed_steps_split bind_s_def p g)
    show ?thesis
      unfolding seedDatabase_Inl[OF s]
      using f e3 i3 m3
      by (simp add: s close_fields console_error_fields w4_def embed_calls_append
          insert_calls_append)
  next
    assume f: "embed_fault env k = None \<and> insert_fault env k = Some (e, n)"
    define w4 where "w4 = w3\<lparr>docs := docs w3 @ take n (map (stored env) ?b),
        calls := calls w3 @ [CEmbed (map (summary_of env) ?b),
                             CInsertMany (map (stored env) ?b)]\<rparr>"
    have "load_loop env data 0 w2 = (Inl e, w4)"
      unfolding l w4_def using f by (simp add: process_batch_insert_fail[OF vb])
    then have s: "seed_steps env w = (Inl e, w4)"
      by (simp add: seed_steps_split bind_s_def p g)
    have "map metadata (take n (map (stored env) ?b)) = take n ?b"
      by (simp add: take_map[symmetric] metadata_stored_o del: take_map)
    then show ?thesis
      unfolding seedDatabase_Inl[OF s]
      using f e3 i3 m3
      by (simp add: s close_fields console_error_fields w4_def embed_calls_append
          insert_calls_append)
  qed
qed

section \<open>Further outcomes of a run and of provisioning\<close>

lemma invoke_failure:
  assumes "llm_invoke env = Inl e"
  shows "generateSyntheticData env w' = (Inl e, called CInvoke w')
     \<and> (\<exists>e'. fst (seed_steps env w) = Inl e')
     \<and> embed_calls (calls (seedDatabase env w)) = embed_calls (calls w)
     \<and> insert_calls (calls (seedDatabase env w)) = insert_calls (calls w)
     \<and> \<not> connected (seedDatabase env w)
     \<and> last (calls (seedDatabase env w)) = CClose
     \<and> (fault env Connect = None \<and> fault env Ping = None
          \<and> fault env ListCollections = None \<and> fault env CreateCollection = None
          \<and> fault env DeleteMany = None \<longrightarrow>
        fst (seed_steps env w) = Inl e
        \<and> docs (seedDatabase env w) = []
        \<and> last (console_errors (seedDatabase env w)) = (''Error seeding database:'', e))"
proof -
  obtain r1 w1 where p: "provision_steps env w = (r1, w1)" by fastforce
  note q1 = provision_quiet[OF p]
  show ?thesis
  proof (cases r1)
    case (Inl e1)
    then have s: "seed_steps env w = (Inl e1, w1)"
      by (simp add: seed_steps_split bind_s_def p)
    have "\<not> (fault env Connect = None \<and> fault env Ping = None
          \<and> fault env ListCollections = None \<and> fault env CreateCollection = None
          \<and> fault env DeleteMany = None)"
      using provision_ok[of env w] p Inl by auto
    then show ?thesis
      unfolding seedDatabase_Inl[OF s]
      using q1
      by (auto simp: s gen_fail[OF assms] close_fields console_error_fields
          embed_calls_append insert_calls_append)
  next
    case (Inr u)
    then have s: "seed_steps env w = (Inl e, called CInvoke w1)"
      by (simp add: seed_steps_split bind_s_def p gen_fail[OF assms])
    have d: "fault env Connect = None \<and> fault env Ping = None
          \<and> fault env ListCollections = None \<and> fault env CreateCollection = None
          \<and> fault env DeleteMany = None \<longrightarrow> docs w1 = []"
      using provision_ok[of env w] p by auto
    show ?thesis
      unfolding seedDatabase_Inl[OF s]
      using q1 d
      by (simp add: s gen_fail[OF assms] close_fields console_error_fields called_def
          embed_calls_append insert_calls_append)
  qed
qed

lemma empty_array_run:
  assumes prov: "fault env Connect = None" "fault env Ping = None"
      "fault env ListCollections = None" "fault env CreateCollection = None"
      "fault env DeleteMany = None"
    and "llm_invoke env = Inr content" "match_array content = Some m"
      "JSON_parse env m = Inr []"
  shows "fst (generateSyntheticData env w') = Inr []
     \<and> fst (seed_steps env w) = Inr ()
     \<and> docs (seedDatabase env w) = []
     \<and> insert_calls (calls (seedDatabase env w)) = insert_calls (calls w)
     \<and> embed_calls (calls (seedDatabase env w)) = embed_calls (calls w)
     \<and> console_errors (seedDatabase env w) = console_errors (snd (provision_steps env w))
     \<and> \<not> connected (seedDatabase env w)
     \<and> last (calls (seedDatabase env w)) = CClose"
proof -
  have g: "\<And>x. generateSyntheticData env x = (Inr [], called CInvoke x)"
    using assms(6-8) by (simp add: generateSyntheticData_def parse_response_def)
  obtain w1 where p: "provision_steps env w = (Inr (), w1)" and d1: "docs w1 = []"
    using provision_ok[OF prov] by blast
  note q1 = provision_quiet[OF p]
  have l: "load_loop env [] 0 (called CInvoke w1) = (Inr (), called CInvoke w1)"
    by (subst load_loop.simps) simp
  have s: "seed_steps env w = (Inr (), called CInvoke w1)"
    by (simp add: seed_steps_split bind_s_def p g l)
  show ?thesis
    unfolding seedDatabase_Inr[OF s]
    using q1 d1
    by (simp add: s g p close_fields called_def embed_calls_append insert_calls_append)
qed

lemma index_returns: "fst (createVectorSearchIndex env w) = Inr ()"
  by (simp add: createVectorSearchIndex_def split: prod.splits sum.splits)

lemma index_success:
  assumes "fault env DropIndexes = None" "fault env CreateSearchIndex = None"
  shows "indexes (snd (createVectorSearchIndex env w)) = [vectorSearchIdx]
     \<and> calls (snd (createVectorSearchIndex env w))
         = calls w @ [CDropIndexes, CCreateSearchIndex vectorSearchIdx]
     \<and> console_errors (snd (createVectorSearchIndex env w)) = console_errors w"
  using assms
  by (simp add: createVectorSearchIndex_def bind_s_def dropIndexes_def createSearchIndex_def
      called_def Let_def)

lemma index_drop_failure:
  assumes "fault env DropIndexes = Some e"
  shows "indexes (snd (createVectorSearchIndex env w)) = indexes w
     \<and> calls (snd (createVectorSearchIndex env w)) = calls w @ [CDropIndexes]
     \<and> console_errors (snd (createVectorSearchIndex env w))
         = console_errors w @ [(''Failed to create vector search index:'', e)]"
  using assms
  by (simp add: createVectorSearchIndex_def bind_s_def dropIndexes_def called_def
      console_error_def Let_def)

lemma index_create_failure:
  assumes "fault env DropIndexes = None" "fault env CreateSearchIndex = Some e"
  shows "indexes (snd (createVectorSearchIndex env w)) = []
     \<and> calls (snd (createVectorSearchIndex env w))
         = calls w @ [CDropIndexes, CCreateSearchIndex vectorSearchIdx]
     \<and> console_errors (snd (createVectorSearchIndex env w))
         = console_errors w @ [(''Failed to create vector search index:'', e)]"
  using assms
  by (simp add: createVectorSearchIndex_def bind_s_def dropIndexes_def createSearchIndex_def
      called_def console_error_def Let_def)

lemma distinct_count_one: "distinct xs \<Longrightarrow> x \<in> set xs \<Longrightarrow> count_list xs x = 1"
  by (induction xs) auto

lemma setup_twice:
  assumes "distinct (collections w)" "setupDatabaseAndCollection env w = (Inr (), w1)"
  shows "fault env ListCollections = None
     \<and> (fault env' ListCollections = None \<longrightarrow>
          setupDatabaseAndCollection env' w1 = (Inr (), called CListCollections w1))
     \<and> count_list (collections w1) ''items'' = 1"
proof -
  have f: "fault env ListCollections = None"
    using assms(2)
    by (auto simp: setupDatabaseAndCollection_def bind_s_def listCollections_def Let_def
        split: option.splits)
  have c: "''items'' \<in> set (collections w1) \<and> distinct (collections w1)"
    using assms f
    by (auto simp: setupDatabaseAndCollection_def bind_s_def listCollections_def
        createCollection_def called_def Let_def filter_empty_conv
        split: option.splits if_splits)
  then have "count_list (collections w1) ''items'' = 1"
    by (simp add: distinct_count_one)
  moreover have "filter (\<lambda>c. c = ''items'') (collections w1) \<noteq> []"
    using c by (auto simp: filter_empty_conv)
  ultimately show ?thesis
    using f
    by (simp add: setupDatabaseAndCollection_def bind_s_def listCollections_def called_def
        Let_def)
qed

section \<open>Facts about the sample runs\<close>

lemma sample_record_item: "as_item (sample_record i) = Some (sample_item i)"
  by (simp add: sample_record_def sample_item_def as_item_def as_address_def as_prices_def)

lemma sample_valid: "list_all valid_item sample_data"
  by (simp add: sample_data_def list_all_iff valid_item_def sample_record_item)

lemma sample_length: "length sample_data = 10"
  by (simp add: sample_data_def sample_ids_def)

lemma sample_response_match: "match_array sample_response = Some sample_response"
  using match_array_intro[of "[]" "[]" "join '','' (map sample_text sample_ids)"]
  by (simp add: sample_response_def)

lemma env_embed_down_generate:
  "fst (generateSyntheticData env_embed_down w) = Inr sample_data"
  by (simp add: generateSyntheticData_def parse_response_def env_embed_down_def env_ok_def
      sample_response_match parse_only_def)

lemma env_partial_write_generate:
  "fst (generateSyntheticData env_partial_write w) = Inr sample_data"
  by (simp add: generateSyntheticData_def parse_response_def env_partial_write_def env_ok_def
      sample_response_match parse_only_def)

section \<open>The claims\<close>

text \<open>
  Claim C1, as amended. When the call of the generative model itself fails,
  \<open>generateSyntheticData\<close> does not fall back: the failure leaves it as an exception
  (the call stands before the \<open>try\<close> block). The run then ends with an error caught by
  \<open>seedDatabase\<close>, without any embedding call or bulk insert, and the connection is
  closed. When the steps before the generation have succeeded, the caught error is that
  of the model call and the collection is left empty.
\<close>

theorem invoke_failure_ends_run:
  assumes "llm_invoke env = Inl e"
  shows "generateSyntheticData env w' = (Inl e, called CInvoke w')
     \<and> (\<exists>e'. fst (seed_steps env w) = Inl e')
     \<and> embed_calls (calls (seedDatabase env w)) = embed_calls (calls w)
     \<and> insert_calls (calls (seedDatabase env w)) = insert_calls (calls w)
     \<and> \<not> connected (seedDatabase env w)
     \<and> last (calls (seedDatabase env w)) = CClose
     \<and> (fault env Connect = None \<and> fault env Ping = None
          \<and> fault env ListCollections = None \<and> fault env CreateCollection = None
          \<and> fault env DeleteMany = None \<longrightarrow>
        fst (seed_steps env w) = Inl e
        \<and> docs (seedDatabase env w) = []
        \<and> last (console_errors (seedDatabase env w)) = (''Error seeding database:'', e))"
  by (rule invoke_failure[OF assms])

theorem invoke_failure_ends_run_witness:
  "llm_invoke env_llm_down = Inl (ServiceError ''model unavailable'')
   \<and> fault env_llm_down Connect = None \<and> fault env_llm_down Ping = None
   \<and> fault env_llm_down ListCollections = None \<and> fault env_llm_down CreateCollection = None
   \<and> fault env_llm_down DeleteMany = None
   \<and> generateSyntheticData env_llm_down w_fresh
       = (Inl (ServiceError ''model unavailable''), called CInvoke w_fresh)
   \<and> fst (seed_steps env_llm_down w_fresh) = Inl (ServiceError ''model unavailable'')
   \<and> embed_calls (calls (seedDatabase env_llm_down w_fresh)) = []
   \<and> insert_calls (calls (seedDatabase env_llm_down w_fresh)) = []
   \<and> docs (seedDatabase env_llm_down w_fresh) = []
   \<and> \<not> connected (seedDatabase env_llm_down w_fresh)
   \<and> last (console_errors (seedDatabase env_llm_down w_fresh))
       = (''Error seeding database:'', ServiceError ''model unavailable'')"
proof -
  have h: "llm_invoke env_llm_down = Inl (ServiceError ''model unavailable'')"
    by (simp add: env_llm_down_def)
  have p: "fault env_llm_down Connect = None \<and> fault env_llm_down Ping = None
     \<and> fault env_llm_down ListCollections = None \<and> fault env_llm_down CreateCollection = None
     \<and> fault env_llm_down DeleteMany = None"
    by (simp add: env_llm_down_def env_ok_def)
  have f: "embed_calls (calls w_fresh) = []" "insert_calls (calls w_fresh) = []"
    by (simp_all add: w_fresh_def)
  from invoke_failure_ends_run[OF h, of w_fresh w_fresh] h p f show ?thesis
    by simp
qed

theorem invoke_failure_is_not_recovered_counterexample:
  "llm_invoke env_llm_down = Inl (ServiceError ''model unavailable'')
   \<and> fst (generateSyntheticData env_llm_down w_fresh) = Inl (ServiceError ''model unavailable'')
   \<and> fst (generateSyntheticData env_llm_down w_fresh) \<noteq> Inr generateFallbackData
   \<and> fst (seed_steps env_llm_down w_fresh) = Inl (ServiceError ''model unavailable'')
   \<and> docs (seedDatabase env_llm_down w_fresh) = []"
proof -
  have h: "llm_invoke env_llm_down = Inl (ServiceError ''model unavailable'')"
    by (simp add: env_llm_down_def)
  have p: "fault env_llm_down Connect = None \<and> fault env_llm_down Ping = None
     \<and> fault env_llm_down ListCollections = None \<and> fault env_llm_down CreateCollection = None
     \<and> fault env_llm_down DeleteMany = None"
    by (simp add: env_llm_down_def env_ok_def)
  from invoke_failure[OF h, of w_fresh w_fresh] h p show ?thesis
    by simp
qed

text \<open>
  Claim C2. Whenever the load loop completes on \<open>N\<close> records, it has issued exactly
  \<open>\<lceil>N / 3\<rceil>\<close> bulk inserts; the batches it wrote, taken in the order of the writes,
  concatenate to the input sequence (each record is in exactly one batch, and the batches
  follow the order of generation), no batch is empty or longer than three records, and
  the collection has received the records in that order. The loop does complete when
  every record conforms to the interface and no embedding call and no bulk insert fails.
\<close>

theorem load_writes_each_record_once:
  "(load_loop env data 0 w = (Inr (), w') \<longrightarrow>
      (\<exists>bs. insert_calls (calls w') = insert_calls (calls w) @ bs
         \<and> length bs = nat \<lceil>real (length data) / real batchSize\<rceil>
         \<and> concat (map (map metadata) bs) = data
         \<and> (\<forall>b\<in>set bs. b \<noteq> [] \<and> length b \<le> batchSize)
         \<and> map metadata (docs w') = map metadata (docs w) @ data))
   \<and> (list_all valid_item data
        \<and> (\<forall>k. k * batchSize < length data \<longrightarrow>
               embed_fault env k = None \<and> insert_fault env k = None) \<longrightarrow>
      (\<exists>w''. load_loop env data 0 w = (Inr (), w'')))"
proof (intro conjI impI)
  assume "load_loop env data 0 w = (Inr (), w')"
  then show "\<exists>bs. insert_calls (calls w') = insert_calls (calls w) @ bs
         \<and> length bs = nat \<lceil>real (length data) / real batchSize\<rceil>
         \<and> concat (map (map metadata) bs) = data
         \<and> (\<forall>b\<in>set bs. b \<noteq> [] \<and> length b \<le> batchSize)
         \<and> map metadata (docs w') = map metadata (docs w) @ data"
    by (rule load_Inr)
next
  assume a: "list_all valid_item data
        \<and> (\<forall>k. k * batchSize < length data \<longrightarrow>
               embed_fault env k = None \<and> insert_fault env k = None)"
  show "\<exists>w''. load_loop env data 0 w = (Inr (), w'')"
    using load_ok[of data env w] a by blast
qed

theorem load_writes_each_record_once_witness:
  "list_all valid_item sample_data
   \<and> embed_fault env_ok = (\<lambda>k. None) \<and> insert_fault env_ok = (\<lambda>k. None)
   \<and> (\<exists>w' bs. load_loop env_ok sample_data 0 w_fresh = (Inr (), w')
        \<and> insert_calls (calls w') = bs
        \<and> length bs = 4
        \<and> concat (map (map metadata) bs) = sample_data
        \<and> (\<forall>b\<in>set bs. b \<noteq> [] \<and> length b \<le> 3)
        \<and> map metadata (docs w') = sample_data)"
proof -
  have h2: "\<forall>k. k * batchSize < length sample_data \<longrightarrow>
          embed_fault env_ok k = None \<and> insert_fault env_ok k = None"
    by (simp add: env_ok_def)
  have c: "nat \<lceil>real (length sample_data) / real batchSize\<rceil> = 4"
    using ceiling_batches[of "length sample_data", symmetric] by (simp add: sample_length)
  have f: "insert_calls (calls w_fresh) = []" "map metadata (docs w_fresh) = []"
    by (simp_all add: w_fresh_def)
  from conjunct2[OF load_writes_each_record_once[of env_ok sample_data w_fresh]]
    sample_valid h2
  obtain w' where l: "load_loop env_ok sample_data 0 w_fresh = (Inr (), w')" by blast
  from conjunct1[OF load_writes_each_record_once[of env_ok sample_data w_fresh w'],
      rule_format, OF l]
  have "\<exists>bs. insert_calls (calls w') = bs
        \<and> length bs = 4
        \<and> concat (map (map metadata) bs) = sample_data
        \<and> (\<forall>b\<in>set bs. b \<noteq> [] \<and> length b \<le> 3)
        \<and> map metadata (docs w') = sample_data"
    unfolding c f by (simp add: batchSize_def)
  moreover have "embed_fault env_ok = (\<lambda>k. None)" "insert_fault env_ok = (\<lambda>k. None)"
    by (simp_all add: env_ok_def)
  ultimately show ?thesis using l sample_valid by blast
qed

text \<open>
  Claim C3, as amended. Let the steps before the load succeed and the records conform to
  the interface, and let batch \<open>k\<close> (counted from 0) be the first batch whose embedding
  call or bulk insert fails. If the embedding call fails, the collection afterwards holds
  exactly the records of the batches before \<open>k\<close>; if the bulk insert fails, it holds
  those records followed by the \<open>n\<close> records of batch \<open>k\<close> that the store had persisted
  before it failed (none when \<open>n = 0\<close>). In both cases no later batch is attempted, the
  error is caught by \<open>seedDatabase\<close> and reported, and the connection is closed.
\<close>

theorem load_failure_keeps_earlier_batches:
  assumes "fault env Connect = None" "fault env Ping = None"
      "fault env ListCollections = None" "fault env CreateCollection = None"
      "fault env DeleteMany = None"
    and "fst (generateSyntheticData env w') = Inr data"
    and "list_all valid_item data"
    and "k * batchSize < length data"
    and "\<forall>j<k. embed_fault env j = None \<and> insert_fault env j = None"
    and "embed_fault env k = Some e
         \<or> (embed_fault env k = None \<and> insert_fault env k = Some (e, n))"
  shows "fst (seed_steps env w) = Inl e
     \<and> map metadata (docs (seedDatabase env w))
         = take (k * batchSize) data
           @ (if embed_fault env k = None
              then take n (slice data (k * batchSize) (k * batchSize + batchSize)) else [])
     \<and> length (embed_calls (calls (seedDatabase env w)))
         = length (embed_calls (calls w)) + Suc k
     \<and> length (insert_calls (calls (seedDatabase env w)))
         = length (insert_calls (calls w)) + (if embed_fault env k = None then Suc k else k)
     \<and> last (console_errors (seedDatabase env w)) = (''Error seeding database:'', e)
     \<and> \<not> connected (seedDatabase env w)
     \<and> last (calls (seedDatabase env w)) = CClose"
  by (rule seed_load_failure[OF assms])

theorem load_failure_keeps_earlier_batches_witness:
  "fault env_embed_down Connect = None \<and> fault env_embed_down Ping = None
   \<and> fault env_embed_down ListCollections = None
   \<and> fault env_embed_down CreateCollection = None
   \<and> fault env_embed_down DeleteMany = None
   \<and> fst (generateSyntheticData env_embed_down w_fresh) = Inr sample_data
   \<and> list_all valid_item sample_data
   \<and> 1 * batchSize < length sample_data
   \<and> embed_fault env_embed_down 0 = None \<and> insert_fault env_embed_down 0 = None
   \<and> embed_fault env_embed_down 1 = Some (ServiceError ''embedding failed'')
   \<and> fst (seed_steps env_embed_down w_fresh) = Inl (ServiceError ''embedding failed'')
   \<and> map metadata (docs (seedDatabase env_embed_down w_fresh)) = take 3 sample_data
   \<and> length (embed_calls (calls (seedDatabase env_embed_down w_fresh))) = 2
   \<and> length (insert_calls (calls (seedDatabase env_embed_down w_fresh))) = 1
   \<and> last (console_errors (seedDatabase env_embed_down w_fresh))
       = (''Error seeding database:'', ServiceError ''embedding failed'')
   \<and> \<not> connected (seedDatabase env_embed_down w_fresh)
   \<and> last (calls (seedDatabase env_embed_down w_fresh)) = CClose"
proof -
  have p: "fault env_embed_down Connect = None" "fault env_embed_down Ping = None"
    "fault env_embed_down ListCollections = None"
    "fault env_embed_down CreateCollection = None"
    "fault env_embed_down DeleteMany = None"
    by (simp_all add: env_embed_down_def env_ok_def)
  have k: "1 * batchSize < length sample_data"
    by (simp add: batchSize_def sample_length)
  have b: "\<forall>j<1. embed_fault env_embed_down j = None \<and> insert_fault env_embed_down j = None"
    by (simp add: env_embed_down_def env_ok_def)
  have f: "embed_fault env_embed_down 1 = Some (ServiceError ''embedding failed'')"
    by (simp add: env_embed_down_def)
  have f': "embed_fault env_embed_down 1 = Some (ServiceError ''embedding failed'')
         \<or> (embed_fault env_embed_down 1 = None
             \<and> insert_fault env_embed_down 1 = Some (ServiceError ''embedding failed'', 0))"
    using f by simp
  have c: "embed_calls (calls w_fresh) = []" "insert_calls (calls w_fresh) = []"
    by (simp_all add: w_fresh_def)
  from load_failure_keeps_earlier_batches[OF p env_embed_down_generate sample_valid k b f',
      of w_fresh]
  have "fst (seed_steps env_embed_down w_fresh) = Inl (ServiceError ''embedding failed'')
   \<and> map metadata (docs (seedDatabase env_embed_down w_fresh)) = take 3 sample_data
   \<and> length (embed_calls (calls (seedDatabase env_embed_down w_fresh))) = 2
   \<and> length (insert_calls (calls (seedDatabase env_embed_down w_fresh))) = 1
   \<and> last (console_errors (seedDatabase env_embed_down w_fresh))
       = (''Error seeding database:'', ServiceError ''embedding failed'')
   \<and> \<not> connected (seedDatabase env_embed_down w_fresh)
   \<and> last (calls (seedDatabase env_embed_down w_fresh)) = CClose"
    by (simp add: f[unfolded One_nat_def] c batchSize_def)
  moreover have "embed_fault env_embed_down 0 = None" "insert_fault env_embed_down 0 = None"
    by (simp_all add: env_embed_down_def env_ok_def)
  ultimately show ?thesis using p env_embed_down_generate sample_valid k f by blast
qed

theorem failed_write_may_leave_part_of_batch_counterexample:
  "embed_fault env_partial_write 1 = None
   \<and> insert_fault env_partial_write 0 = None
   \<and> insert_fault env_partial_write 1 = Some (ServiceError ''write failed'', 1)
   \<and> fst (seed_steps env_partial_write w_fresh) = Inl (ServiceError ''write failed'')
   \<and> map metadata (docs (seedDatabase env_partial_write w_fresh)) = take 4 sample_data
   \<and> map metadata (docs (seedDatabase env_partial_write w_fresh)) \<noteq> take 3 sample_data"
proof -
  have p: "fault env_partial_write Connect = None" "fault env_partial_write Ping = None"
    "fault env_partial_write ListCollections = None"
    "fault env_partial_write CreateCollection = None"
    "fault env_partial_write DeleteMany = None"
    by (simp_all add: env_partial_write_def env_ok_def)
  have k: "1 * batchSize < length sample_data"
    by (simp add: batchSize_def sample_length)
  have b: "\<forall>j<1. embed_fault env_partial_write j = None
                \<and> insert_fault env_partial_write j = None"
    by (simp add: env_partial_write_def env_ok_def)
  have f: "embed_fault env_partial_write 1 = None"
    "insert_fault env_partial_write 0 = None"
    "insert_fault env_partial_write 1 = Some (ServiceError ''write failed'', 1)"
    by (simp_all add: env_partial_write_def env_ok_def)
  have f': "embed_fault env_partial_write 1 = Some (ServiceError ''write failed'')
         \<or> (embed_fault env_partial_write 1 = None
             \<and> insert_fault env_partial_write 1 = Some (ServiceError ''write failed'', 1))"
    using f by simp
  have t: "take 3 sample_data @ take 1 (slice sample_data 3 6) = take 4 sample_data"
    by (simp add: sample_data_def sample_ids_def slice_def)
  have n: "take 4 sample_data \<noteq> take 3 sample_data"
  proof
    assume "take 4 sample_data = take 3 sample_data"
    then have "length (take 4 sample_data) = length (take 3 sample_data)" by simp
    then show False by (simp add: sample_length)
  qed
  from seed_load_failure[OF p env_partial_write_generate sample_valid k b f', of w_fresh]
  have "fst (seed_steps env_partial_write w_fresh) = Inl (ServiceError ''write failed'')
     \<and> map metadata (docs (seedDatabase env_partial_write w_fresh)) = take 4 sample_data"
    using t by (simp add: f[unfolded One_nat_def] batchSize_def)
  with f n show ?thesis by simp
qed

text \<open>
  Claim C4. For every record that conforms to the interface, \<open>createItemSummary\<close>
  returns (it does not throw), and the text it returns is the one the specification
  describes: name, description and brand, then the manufacturer country, the categories
  joined by a comma and a space, the reviews rendered as "Rated r on d: c" and joined by
  spaces, the price sentence, and the notes. The result is a function of the record and
  of the number rendering alone. With an empty review list the reviews segment is empty
  and the summary is still produced.
\<close>

theorem createItemSummary_follows_spec:
  assumes "as_item j = Some it"
  shows "createItemSummary ns j = Inr (summarize ns it)
     \<and> (user_reviews it = [] \<longrightarrow>
        createItemSummary ns j =
          Inr (item_name it @ '' '' @ item_description it @ '' from the brand '' @ brand it
               @ ''. Manufacturer: Made in '' @ country (manufacturer_address it)
               @ ''. Categories: '' @ join '', '' (categories it)
               @ ''. Reviews: . Price: At full price it costs: ''
               @ ns (full_price (prices it))
               @ '' USD, On sale it costs: '' @ ns (sale_price (prices it)) @ '' USD''
               @ ''. Notes: '' @ notes it))"
  using as_item_summary[OF assms, of ns]
  by (simp add: summarize_def review_segment_def)

theorem createItemSummary_follows_spec_witness:
  "as_item (sample_record ''i01'') = Some (sample_item ''i01'')
   \<and> user_reviews (sample_item ''i01'') = []
   \<and> createItemSummary show_int (sample_record ''i01'') =
       Inr (''Chair Oak chair from the brand WoodCraft. Manufacturer: Made in USA. ''
            @ ''Categories: chair, wood. Reviews: . Price: At full price it costs: 120''
            @ '' USD, On sale it costs: 99 USD. Notes: Sold in pairs'')"
proof -
  have h: "as_item (sample_record ''i01'') = Some (sample_item ''i01'')"
    by (rule sample_record_item)
  have e: "user_reviews (sample_item ''i01'') = []"
    by (simp add: sample_item_def)
  have "createItemSummary show_int (sample_record ''i01'') =
       Inr (''Chair Oak chair from the brand WoodCraft. Manufacturer: Made in USA. ''
            @ ''Categories: chair, wood. Reviews: . Price: At full price it costs: 120''
            @ '' USD, On sale it costs: 99 USD. Notes: Sold in pairs'')"
    using conjunct2[OF createItemSummary_follows_spec[OF h, of show_int], rule_format, OF e]
    by (simp add: sample_item_def show_int_def digit_char_def)
  with h e show ?thesis by blast
qed

text \<open>
  Claim C5. When the model's answer holds no opening bracket that is followed somewhere
  by a closing bracket, \<open>generateSyntheticData\<close> returns exactly the two hard-coded
  fallback records; the fallback set is not empty, each of its records conforms to the
  interface, and each is fully populated.
\<close>

theorem no_array_gives_fallback:
  fixes env :: "('n::numeral, 'v) env"
  assumes "llm_invoke env = Inr content"
    and "\<not> (\<exists>pre mid post. content = pre @ CHR ''['' # mid @ CHR '']'' # post)"
  shows "fst (generateSyntheticData env w) = Inr generateFallbackData
     \<and> generateFallbackData \<noteq> ([] :: 'n json list)
     \<and> 2 \<le> length (generateFallbackData :: 'n json list)
     \<and> list_all valid_item (generateFallbackData :: 'n json list)
     \<and> list_all fully_populated (generateFallbackData :: 'n json list)"
proof -
  have "match_array content = None"
    using assms(2) by (simp add: match_array_None_iff)
  then have "fst (generateSyntheticData env w) = Inr generateFallbackData"
    using assms(1) by (simp add: generateSyntheticData_def parse_response_def)
  moreover have "generateFallbackData \<noteq> ([] :: 'n json list)"
    and "2 \<le> length (generateFallbackData :: 'n json list)"
    by (simp_all add: generateFallbackData_def)
  ultimately show ?thesis
    using fallback_valid fallback_full by blast
qed

theorem no_array_gives_fallback_witness:
  "llm_invoke env_no_array = Inr ''Sorry, I cannot help with that.''
   \<and> \<not> (\<exists>pre mid post. ''Sorry, I cannot help with that.'' = pre @ CHR ''['' # mid @ CHR '']'' # post)
   \<and> fst (generateSyntheticData env_no_array w_fresh) = Inr generateFallbackData
   \<and> length (generateFallbackData :: int json list) = 2
   \<and> list_all valid_item (generateFallbackData :: int json list)
   \<and> list_all fully_populated (generateFallbackData :: int json list)"
proof -
  have h1: "llm_invoke env_no_array = Inr ''Sorry, I cannot help with that.''"
    by (simp add: env_no_array_def env_ok_def)
  have "match_array ''Sorry, I cannot help with that.'' = None"
    by (simp add: match_array_def)
  then have h2: "\<not> (\<exists>pre mid post.
      ''Sorry, I cannot help with that.'' = pre @ CHR ''['' # mid @ CHR '']'' # post)"
    by (rule iffD1[OF match_array_None_iff])
  have "length (generateFallbackData :: int json list) = 2"
    by (simp add: generateFallbackData_def)
  with no_array_gives_fallback[OF h1 h2, of w_fresh] h1 h2 show ?thesis
    by blast
qed

text \<open>
  Claim C6, as amended. The span \<open>generateSyntheticData\<close> extracts runs from the first
  opening bracket of the answer to its last closing bracket (so it is the array itself
  only when the prose before it holds no opening bracket and the prose after it no closing
  bracket); when \<^verbatim>\<open>JSON.parse\<close> accepts that span, the parsed array is returned as it is,
  and when there is no span or \<^verbatim>\<open>JSON.parse\<close> rejects it, the error is reported on the
  console and the fallback records are returned.
\<close>

theorem extraction_span_and_parse_unmodified:
  "(match_array s = Some m \<longleftrightarrow>
      (\<exists>pre mid post. s = pre @ m @ post \<and> m = CHR ''['' # mid @ [CHR '']'']
         \<and> CHR ''['' \<notin> set pre \<and> CHR '']'' \<notin> set post))
   \<and> (llm_invoke env = Inr s \<longrightarrow> match_array s = Some m \<longrightarrow> JSON_parse env m = Inr items \<longrightarrow>
        generateSyntheticData env w = (Inr items, called CInvoke w))
   \<and> (llm_invoke env = Inr s \<longrightarrow> parse_response env s = Inl err \<longrightarrow>
        generateSyntheticData env w
          = (Inr generateFallbackData,
             console_error ''Error parsing AI response:'' err (called CInvoke w)))"
proof -
  have "match_array s = Some m" if
    "\<exists>pre mid post. s = pre @ m @ post \<and> m = CHR ''['' # mid @ [CHR '']'']
         \<and> CHR ''['' \<notin> set pre \<and> CHR '']'' \<notin> set post"
  proof -
    from that obtain pre mid post where
      s: "s = pre @ m @ post" and m: "m = CHR ''['' # mid @ [CHR '']'']"
      and p: "CHR ''['' \<notin> set pre" "CHR '']'' \<notin> set post" by blast
    show ?thesis using match_array_intro[OF p, of mid] by (simp add: s m)
  qed
  then have a: "match_array s = Some m \<longleftrightarrow>
      (\<exists>pre mid post. s = pre @ m @ post \<and> m = CHR ''['' # mid @ [CHR '']'']
         \<and> CHR ''['' \<notin> set pre \<and> CHR '']'' \<notin> set post)"
    using match_array_elim[of s m] by blast
  have b: "llm_invoke env = Inr s \<longrightarrow> match_array s = Some m \<longrightarrow> JSON_parse env m = Inr items \<longrightarrow>
        generateSyntheticData env w = (Inr items, called CInvoke w)"
    by (simp add: generateSyntheticData_def parse_response_def)
  have c: "llm_invoke env = Inr s \<longrightarrow> parse_response env s = Inl err \<longrightarrow>
        generateSyntheticData env w
          = (Inr generateFallbackData,
             console_error ''Error parsing AI response:'' err (called CInvoke w))"
    by (simp add: generateSyntheticData_def)
  from a b c show ?thesis by blast
qed

theorem extraction_span_and_parse_unmodified_witness:
  "llm_invoke env_ok = Inr sample_response
   \<and> match_array sample_response = Some sample_response
   \<and> JSON_parse env_ok sample_response = Inr sample_data
   \<and> generateSyntheticData env_ok w_fresh = (Inr sample_data, called CInvoke w_fresh)
   \<and> llm_invoke env_no_array = Inr ''Sorry, I cannot help with that.''
   \<and> parse_response env_no_array ''Sorry, I cannot help with that.''
       = Inl (Error ''No valid JSON array found in response'')
   \<and> generateSyntheticData env_no_array w_fresh
       = (Inr generateFallbackData,
          console_error ''Error parsing AI response:''
            (Error ''No valid JSON array found in response'') (called CInvoke w_fresh))"
proof -
  have h1: "llm_invoke env_ok = Inr sample_response"
    and h3: "JSON_parse env_ok sample_response = Inr sample_data"
    by (simp_all add: env_ok_def parse_only_def)
  note h2 = sample_response_match
  have k1: "llm_invoke env_no_array = Inr ''Sorry, I cannot help with that.''"
    by (simp add: env_no_array_def env_ok_def)
  have k2: "parse_response env_no_array ''Sorry, I cannot help with that.''
       = Inl (Error ''No valid JSON array found in response'')"
    by (simp add: parse_response_def match_array_def)
  note t1 = extraction_span_and_parse_unmodified[of sample_response sample_response env_ok
      sample_data w_fresh]
  note t2 = extraction_span_and_parse_unmodified[of "''Sorry, I cannot help with that.''" _
      env_no_array _ w_fresh "Error ''No valid JSON array found in response''"]
  from t1 h1 h2 h3
  have r1: "generateSyntheticData env_ok w_fresh = (Inr sample_data, called CInvoke w_fresh)"
    by blast
  from t2 k1 k2
  have r2: "generateSyntheticData env_no_array w_fresh
       = (Inr generateFallbackData,
          console_error ''Error parsing AI response:''
            (Error ''No valid JSON array found in response'') (called CInvoke w_fresh))"
    by blast
  from h1 h2 h3 k1 k2 r1 r2 show ?thesis by blast
qed

theorem extraction_takes_last_bracket_counterexample:
  "llm_invoke env_prose = Inr (''Here is the data: '' @ sample_response @ '' [end of data]'')
   \<and> JSON_parse env_prose sample_response = Inr sample_data
   \<and> list_all valid_item sample_data
   \<and> match_array (''Here is the data: '' @ sample_response @ '' [end of data]'')
       = Some (sample_response @ '' [end of data]'')
   \<and> JSON_parse env_prose (sample_response @ '' [end of data]'')
       = Inl (SyntaxError (sample_response @ '' [end of data]''))
   \<and> fst (generateSyntheticData env_prose w_fresh) = Inr generateFallbackData
   \<and> fst (generateSyntheticData env_prose w_fresh) \<noteq> Inr sample_data"
proof -
  have h1: "llm_invoke env_prose
            = Inr (''Here is the data: '' @ sample_response @ '' [end of data]'')"
    and h2: "JSON_parse env_prose sample_response = Inr sample_data"
    and h3: "JSON_parse env_prose (sample_response @ '' [end of data]'')
       = Inl (SyntaxError (sample_response @ '' [end of data]''))"
    by (simp_all add: env_prose_def env_ok_def parse_only_def)
  have m: "match_array (''Here is the data: '' @ sample_response @ '' [end of data]'')
       = Some (sample_response @ '' [end of data]'')"
    using match_array_intro[of "''Here is the data: ''" "[]"
        "join '','' (map sample_text sample_ids) @ ''] [end of data''"]
    by (simp add: sample_response_def)
  have g: "fst (generateSyntheticData env_prose w_fresh) = Inr generateFallbackData"
    using m h3 by (simp add: generateSyntheticData_def parse_response_def h1)
  have "length (generateFallbackData :: int json list) \<noteq> length sample_data"
    by (simp add: generateFallbackData_def sample_length)
  then have "(generateFallbackData :: int json list) \<noteq> sample_data" by auto
  with h1 h2 h3 m g sample_valid show ?thesis by simp
qed

text \<open>
  Claim C7, as amended. A sequence returned by \<open>generateSyntheticData\<close> is either the
  fallback set, whose records all conform to the interface, or exactly the array
  \<^verbatim>\<open>JSON.parse\<close> produced from the extracted span; and whatever array \<^verbatim>\<open>JSON.parse\<close>
  produces from the span is returned as it is: the generator neither rejects nor repairs a
  record.
\<close>

theorem generate_returns_fallback_or_parsed:
  fixes env :: "('n::numeral, 'v) env"
  shows "(fst (generateSyntheticData env w) = Inr records \<longrightarrow>
            (records = generateFallbackData \<and> list_all valid_item records)
          \<or> (\<exists>content. llm_invoke env = Inr content
                \<and> parse_response env content = Inr records))
     \<and> (llm_invoke env = Inr response \<longrightarrow> parse_response env response = Inr items \<longrightarrow>
          fst (generateSyntheticData env w) = Inr items)"
proof (intro conjI impI)
  assume "fst (generateSyntheticData env w) = Inr records"
  then show "(records = generateFallbackData \<and> list_all valid_item records)
          \<or> (\<exists>content. llm_invoke env = Inr content
                \<and> parse_response env content = Inr records)"
    using fallback_valid
    by (auto simp: generateSyntheticData_def Let_def split: sum.splits)
next
  assume "llm_invoke env = Inr response" "parse_response env response = Inr items"
  then show "fst (generateSyntheticData env w) = Inr items"
    by (simp add: generateSyntheticData_def)
qed

theorem generate_returns_fallback_or_parsed_witness:
  "fst (generateSyntheticData env_no_array w_fresh) = Inr generateFallbackData
   \<and> ((generateFallbackData :: int json list) = generateFallbackData
        \<and> list_all valid_item (generateFallbackData :: int json list)
      \<or> (\<exists>content. llm_invoke env_no_array = Inr content
            \<and> parse_response env_no_array content = Inr generateFallbackData))
   \<and> llm_invoke env_bare = Inr ''[{}]''
   \<and> parse_response env_bare ''[{}]'' = Inr [JObj []]
   \<and> fst (generateSyntheticData env_bare w_fresh) = Inr [JObj []]"
proof -
  have h: "fst (generateSyntheticData env_no_array w_fresh) = Inr generateFallbackData"
    by (simp add: generateSyntheticData_def parse_response_def env_no_array_def env_ok_def
        match_array_def)
  have k1: "llm_invoke env_bare = Inr ''[{}]''"
    and k2: "parse_response env_bare ''[{}]'' = Inr [JObj []]"
    by (simp_all add: env_bare_def env_ok_def parse_response_def match_array_def
        parse_only_def)
  note t1 = generate_returns_fallback_or_parsed[of env_no_array w_fresh generateFallbackData]
  note t2 = generate_returns_fallback_or_parsed[of env_bare w_fresh _ "''[{}]''" "[JObj []]"]
  from t1 h have r1: "((generateFallbackData :: int json list) = generateFallbackData
        \<and> list_all valid_item (generateFallbackData :: int json list)
      \<or> (\<exists>content. llm_invoke env_no_array = Inr content
            \<and> parse_response env_no_array content = Inr generateFallbackData))"
    by blast
  from t2 k1 k2 have r2: "fst (generateSyntheticData env_bare w_fresh) = Inr [JObj []]"
    by blast
  from h r1 k1 k2 r2 show ?thesis by blast
qed

theorem generate_does_not_validate_counterexample:
  "llm_invoke env_bare = Inr ''[{}]''
   \<and> JSON_parse env_bare ''[{}]'' = Inr [JObj []]
   \<and> fst (generateSyntheticData env_bare w_fresh) = Inr [JObj []]
   \<and> \<not> valid_item (JObj [] :: int json)
   \<and> createItemSummary (num_str env_bare) (JObj []) = Inl (TypeError ''country'')"
  by (simp add: generateSyntheticData_def parse_response_def env_bare_def env_ok_def
      match_array_def parse_only_def valid_item_def as_item_def createItemSummary_def)

text \<open>
  Claim C8, as amended. \<open>createVectorSearchIndex\<close> always returns. When the drop of the
  indexes and the creation of the search index both succeed, the collection carries
  exactly one index afterwards, whatever indexes it had before: the vector index on the
  path "embedding" with 768 dimensions and cosine similarity, created after the drop.
  When the drop fails, the creation is not attempted and the collection keeps the indexes
  it had; when the creation fails after the drop, the collection is left without any
  index. In both cases the failure is caught and reported on the console.
\<close>

theorem vector_index_provisioning_outcome:
  "fst (createVectorSearchIndex env w) = Inr ()
   \<and> (fault env DropIndexes = None \<and> fault env CreateSearchIndex = None \<longrightarrow>
        indexes (snd (createVectorSearchIndex env w)) = [vectorSearchIdx]
        \<and> calls (snd (createVectorSearchIndex env w))
            = calls w @ [CDropIndexes, CCreateSearchIndex vectorSearchIdx]
        \<and> console_errors (snd (createVectorSearchIndex env w)) = console_errors w)
   \<and> (fault env DropIndexes = Some e \<longrightarrow>
        indexes (snd (createVectorSearchIndex env w)) = indexes w
        \<and> calls (snd (createVectorSearchIndex env w)) = calls w @ [CDropIndexes]
        \<and> console_errors (snd (createVectorSearchIndex env w))
            = console_errors w @ [(''Failed to create vector search index:'', e)])
   \<and> (fault env DropIndexes = None \<and> fault env CreateSearchIndex = Some e \<longrightarrow>
        indexes (snd (createVectorSearchIndex env w)) = []
        \<and> calls (snd (createVectorSearchIndex env w))
            = calls w @ [CDropIndexes, CCreateSearchIndex vectorSearchIdx]
        \<and> console_errors (snd (createVectorSearchIndex env w))
            = console_errors w @ [(''Failed to create vector search index:'', e)])
   \<and> map path (definition_fields vectorSearchIdx) = [''embedding'']
   \<and> map numDimensions (definition_fields vectorSearchIdx) = [768]
   \<and> map similarity (definition_fields vectorSearchIdx) = [''cosine'']"
proof -
  have d: "map path (definition_fields vectorSearchIdx) = [''embedding'']
     \<and> map numDimensions (definition_fields vectorSearchIdx) = [768]
     \<and> map similarity (definition_fields vectorSearchIdx) = [''cosine'']"
    by (simp add: vectorSearchIdx_def)
  show ?thesis
    using index_returns[of env w] index_success[of env w] index_drop_failure[of env e w]
      index_create_failure[of env e w] d
    by blast
qed

theorem vector_index_provisioning_outcome_witness:
  "indexes w_indexed = [vectorSearchIdx] \<and> calls w_indexed = []
   \<and> console_errors w_indexed = []
   \<and> fault env_ok DropIndexes = None \<and> fault env_ok CreateSearchIndex = None
   \<and> fst (createVectorSearchIndex env_ok w_indexed) = Inr ()
   \<and> indexes (snd (createVectorSearchIndex env_ok w_indexed)) = [vectorSearchIdx]
   \<and> calls (snd (createVectorSearchIndex env_ok w_indexed))
       = [CDropIndexes, CCreateSearchIndex vectorSearchIdx]
   \<and> console_errors (snd (createVectorSearchIndex env_ok w_indexed)) = []
   \<and> fault env_drop_down DropIndexes = Some (ServiceError ''drop failed'')
   \<and> fst (createVectorSearchIndex env_drop_down w_indexed) = Inr ()
   \<and> indexes (snd (createVectorSearchIndex env_drop_down w_indexed)) = [vectorSearchIdx]
   \<and> calls (snd (createVectorSearchIndex env_drop_down w_indexed)) = [CDropIndexes]
   \<and> console_errors (snd (createVectorSearchIndex env_drop_down w_indexed))
       = [(''Failed to create vector search index:'', ServiceError ''drop failed'')]
   \<and> fault env_index_down DropIndexes = None
   \<and> fault env_index_down CreateSearchIndex = Some (ServiceError ''index creation failed'')
   \<and> fst (createVectorSearchIndex env_index_down w_indexed) = Inr ()
   \<and> indexes (snd (createVectorSearchIndex env_index_down w_indexed)) = []
   \<and> calls (snd (createVectorSearchIndex env_index_down w_indexed))
       = [CDropIndexes, CCreateSearchIndex vectorSearchIdx]
   \<and> console_errors (snd (createVectorSearchIndex env_index_down w_indexed))
       = [(''Failed to create vector search index:'', ServiceError ''index creation failed'')]"
proof -
  have w: "indexes w_indexed = [vectorSearchIdx]" "calls w_indexed = []"
    "console_errors w_indexed = []"
    by (simp_all add: w_indexed_def w_fresh_def)
  have a: "fault env_ok DropIndexes = None \<and> fault env_ok CreateSearchIndex = None"
    by (simp add: env_ok_def)
  have b: "fault env_drop_down DropIndexes = Some (ServiceError ''drop failed'')"
    by (simp add: env_drop_down_def)
  have c: "fault env_index_down DropIndexes = None
     \<and> fault env_index_down CreateSearchIndex = Some (ServiceError ''index creation failed'')"
    by (simp add: env_index_down_def)
  note t1 = vector_index_provisioning_outcome[of env_ok w_indexed]
  note t2 = vector_index_provisioning_outcome[of env_drop_down w_indexed
      "ServiceError ''drop failed''"]
  note t3 = vector_index_provisioning_outcome[of env_index_down w_indexed
      "ServiceError ''index creation failed''"]
  from t1 a have r1: "fst (createVectorSearchIndex env_ok w_indexed) = Inr ()
     \<and> indexes (snd (createVectorSearchIndex env_ok w_indexed)) = [vectorSearchIdx]
     \<and> calls (snd (createVectorSearchIndex env_ok w_indexed))
         = [CDropIndexes, CCreateSearchIndex vectorSearchIdx]
     \<and> console_errors (snd (createVectorSearchIndex env_ok w_indexed)) = []"
    by (simp add: w)
  from t2 b have r2: "fst (createVectorSearchIndex env_drop_down w_indexed) = Inr ()
     \<and> indexes (snd (createVectorSearchIndex env_drop_down w_indexed)) = [vectorSearchIdx]
     \<and> calls (snd (createVectorSearchIndex env_drop_down w_indexed)) = [CDropIndexes]
     \<and> console_errors (snd (createVectorSearchIndex env_drop_down w_indexed))
         = [(''Failed to create vector search index:'', ServiceError ''drop failed'')]"
    by (simp add: w)
  from t3 c have r3: "fst (createVectorSearchIndex env_index_down w_indexed) = Inr ()
     \<and> indexes (snd (createVectorSearchIndex env_index_down w_indexed)) = []
     \<and> calls (snd (createVectorSearchIndex env_index_down w_indexed))
         = [CDropIndexes, CCreateSearchIndex vectorSearchIdx]
     \<and> console_errors (snd (createVectorSearchIndex env_index_down w_indexed))
         = [(''Failed to create vector search index:'',
             ServiceError ''index creation failed'')]"
    by (simp add: w)
  from w a b c r1 r2 r3 show ?thesis by blast
qed

theorem failed_index_creation_leaves_no_index_counterexample:
  "fault env_index_down DropIndexes = None
   \<and> fault env_index_down CreateSearchIndex = Some (ServiceError ''index creation failed'')
   \<and> indexes w_items = []
   \<and> indexes (snd (createVectorSearchIndex env_index_down w_items)) = []
   \<and> indexes w_indexed = [vectorSearchIdx]
   \<and> indexes (snd (createVectorSearchIndex env_index_down w_indexed)) = []
   \<and> console_errors (snd (createVectorSearchIndex env_index_down w_indexed))
       = [(''Failed to create vector search index:'', ServiceError ''index creation failed'')]"
  by (simp add: createVectorSearchIndex_def bind_s_def dropIndexes_def createSearchIndex_def
      called_def console_error_def Let_def env_index_down_def env_ok_def w_indexed_def
      w_items_def w_fresh_def)

text \<open>
  Claim C9. \<open>setupDatabaseAndCollection\<close> is idempotent: after a call that returned, a
  second call returns as well (in the same environment, and in any other environment in
  which the existence check itself does not fail); it only checks that the collection
  exists, so no creation is attempted and the store is left as it was, and the database
  holds the collection "items" exactly once.
\<close>

theorem setup_idempotent:
  assumes "distinct (collections w)" "setupDatabaseAndCollection env w = (Inr (), w1)"
  shows "setupDatabaseAndCollection env w1 = (Inr (), called CListCollections w1)
     \<and> (fault env' ListCollections = None \<longrightarrow>
          setupDatabaseAndCollection env' w1 = (Inr (), called CListCollections w1))
     \<and> collections (called CListCollections w1) = collections w1
     \<and> indexes (called CListCollections w1) = indexes w1
     \<and> docs (called CListCollections w1) = docs w1
     \<and> count_list (collections w1) ''items'' = 1"
proof -
  note t = setup_twice[OF assms]
  have "setupDatabaseAndCollection env w1 = (Inr (), called CListCollections w1)"
    using setup_twice[OF assms, of env] by simp
  with t[of env'] show ?thesis by (simp add: called_def)
qed

theorem setup_idempotent_witness:
  "distinct (collections w_fresh)
   \<and> fault env_index_down ListCollections = None
   \<and> setupDatabaseAndCollection env_ok w_fresh
       = (Inr (), w_fresh\<lparr>collections := [''items''],
                         calls := [CListCollections, CCreateCollection ''items'']\<rparr>)
   \<and> setupDatabaseAndCollection env_ok
        (w_fresh\<lparr>collections := [''items''],
                 calls := [CListCollections, CCreateCollection ''items'']\<rparr>)
       = (Inr (), w_fresh\<lparr>collections := [''items''],
                    calls := [CListCollections, CCreateCollection ''items'', CListCollections]\<rparr>)
   \<and> setupDatabaseAndCollection env_index_down
        (w_fresh\<lparr>collections := [''items''],
                 calls := [CListCollections, CCreateCollection ''items'']\<rparr>)
       = (Inr (), w_fresh\<lparr>collections := [''items''],
                    calls := [CListCollections, CCreateCollection ''items'', CListCollections]\<rparr>)
   \<and> count_list [''items''] ''items'' = (1::nat)"
proof -
  have h1: "distinct (collections w_fresh)" by (simp add: w_fresh_def)
  have h2: "setupDatabaseAndCollection env_ok w_fresh
       = (Inr (), w_fresh\<lparr>collections := [''items''],
                         calls := [CListCollections, CCreateCollection ''items'']\<rparr>)"
    by (simp add: setupDatabaseAndCollection_def bind_s_def listCollections_def
        createCollection_def called_def Let_def env_ok_def w_fresh_def)
  have h3: "fault env_index_down ListCollections = None"
    by (simp add: env_index_down_def env_ok_def)
  from setup_idempotent[OF h1 h2, of env_index_down] h1 h2 h3 show ?thesis
    by (simp add: called_def w_fresh_def)
qed

text \<open>
  Claim C10. When the model's answer holds a span that \<^verbatim>\<open>JSON.parse\<close> reads as the
  empty array (for example the text "[]") and the steps before the generation succeed,
  \<open>generateSyntheticData\<close> returns the empty sequence and not the fallback set, the loop
  makes no embedding call and no bulk insert, the \<open>try\<close> block completes without an
  error, the collection is left empty, and the connection is closed.
\<close>

theorem empty_array_loads_nothing:
  assumes "fault env Connect = None" "fault env Ping = None"
      "fault env ListCollections = None" "fault env CreateCollection = None"
      "fault env DeleteMany = None"
    and "llm_invoke env = Inr content" "match_array content = Some m"
      "JSON_parse env m = Inr []"
  shows "fst (generateSyntheticData env w') = Inr []
     \<and> fst (seed_steps env w) = Inr ()
     \<and> docs (seedDatabase env w) = []
     \<and> insert_calls (calls (seedDatabase env w)) = insert_calls (calls w)
     \<and> embed_calls (calls (seedDatabase env w)) = embed_calls (calls w)
     \<and> console_errors (seedDatabase env w) = console_errors (snd (provision_steps env w))
     \<and> \<not> connected (seedDatabase env w)
     \<and> last (calls (seedDatabase env w)) = CClose"
  by (rule empty_array_run[OF assms])

theorem empty_array_loads_nothing_witness:
  "fault env_empty Connect = None \<and> fault env_empty Ping = None
   \<and> fault env_empty ListCollections = None \<and> fault env_empty CreateCollection = None
   \<and> fault env_empty DeleteMany = None
   \<and> llm_invoke env_empty = Inr ''[]'' \<and> match_array ''[]'' = Some ''[]''
   \<and> JSON_parse env_empty ''[]'' = Inr []
   \<and> fst (generateSyntheticData env_empty w_fresh) = Inr []
   \<and> fst (generateSyntheticData env_empty w_fresh) \<noteq> Inr generateFallbackData
   \<and> fst (seed_steps env_empty w_fresh) = Inr ()
   \<and> docs (seedDatabase env_empty w_fresh) = []
   \<and> insert_calls (calls (seedDatabase env_empty w_fresh)) = []
   \<and> embed_calls (calls (seedDatabase env_empty w_fresh)) = []
   \<and> \<not> connected (seedDatabase env_empty w_fresh)"
proof -
  have p: "fault env_empty Connect = None" "fault env_empty Ping = None"
    "fault env_empty ListCollections = None" "fault env_empty CreateCollection = None"
    "fault env_empty DeleteMany = None"
    by (simp_all add: env_empty_def env_ok_def)
  have h: "llm_invoke env_empty = Inr ''[]''" "match_array ''[]'' = Some ''[]''"
    "JSON_parse env_empty ''[]'' = Inr []"
    by (simp_all add: env_empty_def env_ok_def match_array_def parse_only_def)
  have c: "embed_calls (calls w_fresh) = []" "insert_calls (calls w_fresh) = []"
    by (simp_all add: w_fresh_def)
  have g: "(generateFallbackData :: int json list) \<noteq> []"
    by (simp add: generateFallbackData_def)
  from empty_array_loads_nothing[OF p h, of w_fresh w_fresh] p h c g show ?thesis
    by auto
qed

end
